theory Spec2Isabelle
  imports Complex_Main "HOL-Library.Multiset"
begin

section \<open>Errors raised by the Python sources\<close>

text \<open>
  Every exception the modelled code can raise is a value of \<open>error\<close>.
  \<^item> \<open>AssertionError\<close>: a failed \<^verbatim>\<open>assert\<close> (assertions enabled, the interpreter's default).
  \<^item> \<open>ValueError a b c d\<close>: \<^verbatim>\<open>ValueError(a, b, c, d)\<close>, the four arguments of the
    exception raised by \<^verbatim>\<open>get_gate_network\<close>; \<open>b\<close> is a tuple of strings.
  \<^item> \<open>TypeError\<close>: a torch function applied to an argument that is not a tensor.
  \<^item> \<open>ShapeMismatch\<close>: torch's RuntimeError for operand shapes that cannot be multiplied.
  \<^item> \<open>IndexOutOfBounds\<close>: torch's RuntimeError for an index or a \<open>k\<close> outside the
    dimension it addresses (\<^verbatim>\<open>gather\<close>, \<^verbatim>\<open>scatter\<close>, \<^verbatim>\<open>topk\<close>).
  \<^item> \<open>NameError\<close>: a read of a local variable that no statement has assigned.
  \<^item> \<open>KeyError k\<close>: a dictionary lookup of the missing key \<open>k\<close>.
\<close>

datatype error =
    AssertionError
  | ValueError string "string list" string string
  | TypeError
  | ShapeMismatch
  | IndexOutOfBounds
  | NameError
  | KeyError string

section \<open>Tensors and the torch primitives the gate calls\<close>

text \<open>
  A vector is a list, a matrix the list of its rows; an entry of a float tensor is the
  real number that a finite float32 value denotes (infinite and NaN entries of inputs are
  outside the model). An index tensor (int64) is a matrix of \<open>int\<close>. A matrix with no
  rows stands for the empty batch of any width. A float32 scalar that a reduction
  returns is a \<open>flt\<close>: a finite value, or \<open>NaN\<close> for any result that is not a real number.

  Torch computes in float32, and its kernels are not part of this repository. The
  kernels whose rounding decides what the scores and the loss are, the softmax, the mean
  and the variance of a vector and the scalar arithmetic of the loss, are therefore
  parameters of the model (a record \<open>kernels\<close>): every theorem about the gate holds for
  every such record, so for the float32 kernels of torch too. The remaining arithmetic
  (the linear layers, the noise, the column sums, the normal distribution) is written
  without rounding. No theorem about the gate depends on the values it yields: the
  general statements hold for whatever logits there are, and the closed examples use
  small integers, on which float32 arithmetic is exact.
\<close>

type_synonym tensor1 = "real list"

type_synonym tensor2 = "real list list"

type_synonym long2 = "int list list"

datatype flt = Finite real | NaN

text \<open>
  The float32 kernels of torch that the gate calls on its scores and its statistics:
  \<^item> \<open>softmax_at row j\<close>: entry \<open>j\<close> of \<^verbatim>\<open>nn.Softmax(1)\<close> applied to \<open>row\<close>;
  \<^item> \<open>mean32 x\<close> and \<open>var32 x\<close>: \<^verbatim>\<open>x.float().mean()\<close> and \<^verbatim>\<open>x.float().var()\<close>, with the
    conversion of an integer tensor to float32;
  \<^item> \<open>square32\<close>, \<open>add32\<close>, \<open>mul32\<close>, \<open>div32\<close>: \<^verbatim>\<open>t ** 2\<close>, \<^verbatim>\<open>t + u\<close>, \<^verbatim>\<open>t * u\<close> and
    \<^verbatim>\<open>t / u\<close> on float32 scalars (a Python number is converted first).
\<close>

record kernels =
  softmax_at :: "tensor1 \<Rightarrow> nat \<Rightarrow> real"
  mean32 :: "tensor1 \<Rightarrow> flt"
  var32 :: "tensor1 \<Rightarrow> flt"
  square32 :: "flt \<Rightarrow> flt"
  add32 :: "flt \<Rightarrow> flt \<Rightarrow> flt"
  mul32 :: "flt \<Rightarrow> flt \<Rightarrow> flt"
  div32 :: "flt \<Rightarrow> flt \<Rightarrow> flt"

definition dot :: "tensor1 \<Rightarrow> tensor1 \<Rightarrow> real" where
  "dot a b = sum_list (map2 (*) a b)"

text \<open>
  \<^verbatim>\<open>nn.Linear(in_features, out_features, bias=False)\<close>: the weight has one row per output
  feature. Its initial entries are random draws; \<open>init r c\<close> is the draw for row \<open>r\<close>,
  column \<open>c\<close>.
\<close>

record linear =
  in_features :: nat
  weight :: tensor2

definition Linear :: "(nat \<Rightarrow> nat \<Rightarrow> real) \<Rightarrow> nat \<Rightarrow> nat \<Rightarrow> linear" where
  "Linear init n_in n_out =
     \<lparr>in_features = n_in, weight = map (\<lambda>r. map (\<lambda>c. init r c) [0..<n_in]) [0..<n_out]\<rparr>"

definition out_features :: "linear \<Rightarrow> nat" where
  "out_features l = length (weight l)"

text \<open>\<^verbatim>\<open>nn.init.zeros_(l.weight)\<close>.\<close>

definition zeros_init :: "linear \<Rightarrow> linear" where
  "zeros_init l = l\<lparr>weight := map (map (\<lambda>_. 0)) (weight l)\<rparr>"

text \<open>Calling the module: \<^verbatim>\<open>F.linear(x, weight, None)\<close>, a RuntimeError unless every
  row of \<open>x\<close> has \<open>in_features\<close> entries.\<close>

definition linear_forward :: "linear \<Rightarrow> tensor2 \<Rightarrow> error + tensor2" where
  "linear_forward l x =
     (if list_all (\<lambda>r. length r = in_features l) x
      then Inr (map (\<lambda>r. map (\<lambda>w. dot r w) (weight l)) x)
      else Inl ShapeMismatch)"

text \<open>
  \<^verbatim>\<open>torch.mm(a, b)\<close> takes two tensors. Python passes any object; an argument that is a
  module and not a tensor is a TypeError, raised before any arithmetic.
\<close>

datatype pyobj = Tensor tensor2 | Module linear

fun torch_mm :: "pyobj \<Rightarrow> pyobj \<Rightarrow> error + tensor2" where
  "torch_mm (Tensor a) (Tensor b) =
     (if list_all (\<lambda>r. length r = length b) a
      then Inr (map (\<lambda>r. map (\<lambda>c. dot r c) (transpose b)) a)
      else Inl ShapeMismatch)"
| "torch_mm _ _ = Inl TypeError"

text \<open>\<^verbatim>\<open>nn.Softplus()\<close> (beta 1, threshold 20): linear above the threshold.\<close>

definition softplus :: "real \<Rightarrow> real" where
  "softplus v = (if v > 20 then v else ln (1 + exp v))"

text \<open>\<^verbatim>\<open>nn.Softmax(1)\<close> on one row: the result has the shape of the row.\<close>

definition softmax :: "kernels \<Rightarrow> tensor1 \<Rightarrow> tensor1" where
  "softmax K row = map (softmax_at K row) [0..<length row]"

text \<open>\<^verbatim>\<open>Normal(mean, std).cdf\<close> with the buffers \<open>mean = 0\<close> and \<open>std = 1\<close>:
  \<open>0.5 * (1 + erf ((v - mean) / std / sqrt 2))\<close>, the error function by its series.\<close>

definition erf :: "real \<Rightarrow> real" where
  "erf v = 2 / sqrt pi * (\<Sum>n. (- 1) ^ n * v ^ (2 * n + 1) / (fact n * real (2 * n + 1)))"

definition normal_cdf :: "real \<Rightarrow> real" where
  "normal_cdf v = 0.5 * (1 + erf ((v - 0) / 1 / sqrt 2))"

text \<open>
  \<^verbatim>\<open>torch.randn_like(t)\<close>: a fresh sample of the shape of \<open>t\<close>; \<open>z i j\<close> is the draw for
  row \<open>i\<close>, column \<open>j\<close> of this call.
\<close>

definition randn_like :: "(nat \<Rightarrow> nat \<Rightarrow> real) \<Rightarrow> tensor2 \<Rightarrow> tensor2" where
  "randn_like z t = map (\<lambda>i. map (\<lambda>j. z i j) [0..<length (t ! i)]) [0..<length t]"

text \<open>
  \<^verbatim>\<open>t.topk(k, dim=1)\<close>: the \<open>k\<close> largest entries of each row in descending order, with
  their positions; a RuntimeError when a row has fewer than \<open>k\<close> entries. Torch leaves
  the order of equal entries open; the model takes the lower position first (a stable
  sort).
\<close>

definition topk_row :: "nat \<Rightarrow> tensor1 \<Rightarrow> (real \<times> int) list" where
  "topk_row k row = take k (sort_key (\<lambda>p. - fst p) (zip row (map int [0..<length row])))"

definition topk :: "tensor2 \<Rightarrow> nat \<Rightarrow> error + (tensor2 \<times> long2)" where
  "topk t k =
     (if list_all (\<lambda>r. k \<le> length r) t
      then Inr (map (\<lambda>r. map fst (topk_row k r)) t, map (\<lambda>r. map snd (topk_row k r)) t)
      else Inl IndexOutOfBounds)"

text \<open>\<^verbatim>\<open>torch.gather(flat, 0, positions)\<close> on a vector: a RuntimeError when a position is
  negative or not below the length (gather does not wrap negative positions).\<close>

definition gather :: "tensor1 \<Rightarrow> int list \<Rightarrow> error + tensor1" where
  "gather flat positions =
     (if list_all (\<lambda>p. 0 \<le> p \<and> p < int (length flat)) positions
      then Inr (map (\<lambda>p. flat ! nat p) positions)
      else Inl IndexOutOfBounds)"

text \<open>\<^verbatim>\<open>zeros.scatter(dim=1, index, src)\<close>: in row \<open>i\<close>, entry \<open>index[i][j]\<close> becomes
  \<open>src[i][j]\<close>; a RuntimeError when an index is outside the row. Index and source have
  the same shape in every call.\<close>

definition scatter_row :: "tensor1 \<Rightarrow> int list \<Rightarrow> tensor1 \<Rightarrow> tensor1" where
  "scatter_row row idx src = fold (\<lambda>(j, v) r. r[nat j := v]) (zip idx src) row"

definition scatter :: "tensor2 \<Rightarrow> long2 \<Rightarrow> tensor2 \<Rightarrow> error + tensor2" where
  "scatter t index src =
     (if list_all (\<lambda>(row, idx). list_all (\<lambda>j. 0 \<le> j \<and> j < int (length row)) idx) (zip t index)
      then Inr (map (\<lambda>(row, idx, s). scatter_row row idx s) (zip t (zip index src)))
      else Inl IndexOutOfBounds)"

text \<open>\<^verbatim>\<open>t.sum(0)\<close> of a matrix with \<open>n\<close> columns: the column sums.\<close>

definition sum0 :: "nat \<Rightarrow> tensor2 \<Rightarrow> tensor1" where
  "sum0 n t = map (\<lambda>j. sum_list (map (\<lambda>r. r ! j) t)) [0..<n]"

text \<open>\<^verbatim>\<open>(t > 0).sum(0)\<close>: per column, the number of rows with a positive entry.\<close>

definition count_positive :: "nat \<Rightarrow> tensor2 \<Rightarrow> nat list" where
  "count_positive n t = map (\<lambda>j. length (filter (\<lambda>r. r ! j > 0) t)) [0..<n]"

subsection \<open>A concrete record of kernels\<close>

text \<open>
  The kernels without rounding. They are not torch's kernels; they are the concrete
  record in closed statements, each of which is an instance of a lemma about an
  arbitrary record. In exact arithmetic the mean of no element and the variance of fewer
  than two are not real numbers, nor is a quotient by zero.
\<close>

fun exact_add :: "flt \<Rightarrow> flt \<Rightarrow> flt" where
  "exact_add (Finite a) (Finite b) = Finite (a + b)"
| "exact_add _ _ = NaN"

fun exact_mul :: "flt \<Rightarrow> flt \<Rightarrow> flt" where
  "exact_mul (Finite a) (Finite b) = Finite (a * b)"
| "exact_mul _ _ = NaN"

fun exact_div :: "flt \<Rightarrow> flt \<Rightarrow> flt" where
  "exact_div (Finite a) (Finite b) = (if b = 0 then NaN else Finite (a / b))"
| "exact_div _ _ = NaN"

definition exact_mean :: "tensor1 \<Rightarrow> flt" where
  "exact_mean x = (if x = [] then NaN else Finite (sum_list x / real (length x)))"

definition exact_var :: "tensor1 \<Rightarrow> flt" where
  "exact_var x =
     (if length x < 2 then NaN
      else Finite (sum_list (map (\<lambda>v. (v - sum_list x / real (length x))\<^sup>2) x)
                   / real (length x - 1)))"

definition exact_kernels :: kernels where
  "exact_kernels =
     \<lparr>softmax_at = (\<lambda>row j. exp (row ! j) / sum_list (map exp row)),
      mean32 = exact_mean, var32 = exact_var,
      square32 = (\<lambda>t. exact_mul t t),
      add32 = exact_add, mul32 = exact_mul, div32 = exact_div\<rparr>"

section \<open>Gating module (smoe/modules/moefication/moe\_gates.py)\<close>

definition valid_gate_type :: "string list" where
  "valid_gate_type = [''linear'', ''mlp'']"

text \<open>\<^verbatim>\<open>str.lower\<close> on the letters A to Z; other characters stay (no character outside
  ASCII lowers to a letter of \<^verbatim>\<open>linear\<close> or \<^verbatim>\<open>mlp\<close>).\<close>

definition lower_char :: "char \<Rightarrow> char" where
  "lower_char c =
     (case map_of (zip ''ABCDEFGHIJKLMNOPQRSTUVWXYZ'' ''abcdefghijklmnopqrstuvwxyz'') c of
        None \<Rightarrow> c
      | Some l \<Rightarrow> l)"

definition lower :: "string \<Rightarrow> string" where
  "lower s = map lower_char s"

text \<open>The gate network: \<^verbatim>\<open>nn.Linear\<close>, or \<^verbatim>\<open>Sequential(Linear, Tanh, Linear)\<close>.\<close>

datatype network = LinearNet linear | MlpNet linear linear

fun network_forward :: "network \<Rightarrow> tensor2 \<Rightarrow> error + tensor2" where
  "network_forward (LinearNet l) x = linear_forward l x"
| "network_forward (MlpNet l1 l2) x =
     (case linear_forward l1 x of
        Inl e \<Rightarrow> Inl e
      | Inr h \<Rightarrow> linear_forward l2 (map (map tanh) h))"

fun network_out :: "network \<Rightarrow> nat" where
  "network_out (LinearNet l) = out_features l"
| "network_out (MlpNet l1 l2) = out_features l2"

text \<open>\<^verbatim>\<open>get_gate_network\<close>; \<open>init m\<close> gives the random initial weights of the \<open>m\<close>-th
  linear layer built. The message of the ValueError holds a double quote (character 34)
  on each side of \<^verbatim>\<open>gate_type\<close>.\<close>

definition get_gate_network ::
  "(nat \<Rightarrow> nat \<Rightarrow> nat \<Rightarrow> real) \<Rightarrow> string \<Rightarrow> nat \<Rightarrow> nat \<Rightarrow> error + network" where
  "get_gate_network init gate_type input_size num_experts =
     (let gate_type = lower gate_type in
      if gate_type = ''linear''
      then Inr (LinearNet (zeros_init (Linear (init 0) input_size num_experts)))
      else if gate_type = ''mlp''
      then Inr (MlpNet (Linear (init 0) input_size num_experts)
                       (Linear (init 1) num_experts num_experts))
      else Inl (ValueError (''Expected '' @ [CHR 0x22] @ ''gate_type''
                              @ [CHR 0x22] @ '' in'')
                           valid_gate_type ''got'' gate_type))"

text \<open>The module's state: its configuration, its two sub-modules and the training flag
  of \<^verbatim>\<open>nn.Module\<close>. The sizes are natural numbers: torch rejects a negative dimension.\<close>

record gate =
  input_size :: nat
  num_experts :: nat
  num_selects :: nat
  use_balance :: bool
  add_noise :: bool
  use_softmax :: bool
  gate_network :: network
  weight_noise :: linear
  training :: bool

definition reset_parameters :: "gate \<Rightarrow> gate" where
  "reset_parameters g = g\<lparr>weight_noise := zeros_init (weight_noise g)\<rparr>"

text \<open>\<^verbatim>\<open>TopKBalancedNoisyGate.__init__\<close>; a new module is in training mode.\<close>

definition gate_init ::
  "(nat \<Rightarrow> nat \<Rightarrow> nat \<Rightarrow> real) \<Rightarrow> nat \<Rightarrow> nat \<Rightarrow> nat \<Rightarrow> string \<Rightarrow> bool \<Rightarrow> bool \<Rightarrow> bool
     \<Rightarrow> error + gate" where
  "gate_init init input_size' num_experts' num_selects' gate_network' use_balance' add_noise'
       use_softmax' =
     (if \<not> num_selects' \<le> num_experts' then Inl AssertionError
      else
        (case get_gate_network init gate_network' input_size' num_experts' of
           Inl e \<Rightarrow> Inl e
         | Inr net \<Rightarrow>
             Inr (reset_parameters
               \<lparr>input_size = input_size', num_experts = num_experts',
                num_selects = num_selects', use_balance = use_balance',
                add_noise = add_noise', use_softmax = use_softmax',
                gate_network = net,
                weight_noise = Linear (init 2) input_size' num_experts',
                training = True\<rparr>)))"

text \<open>\<^verbatim>\<open>cv_squared\<close>: the constant 0 for a vector of one element, else the float32
  quotient of line 107.\<close>

definition cv_squared :: "kernels \<Rightarrow> tensor1 \<Rightarrow> real \<Rightarrow> flt" where
  "cv_squared K x eps =
     (if length x = 1 then Finite 0
      else div32 K (var32 K x) (add32 K (square32 K (mean32 K x)) (Finite eps)))"

subsection \<open>The forward pass\<close>

text \<open>
  Lines 111 to 120 of \<^verbatim>\<open>forward\<close>: the gate's logits and, in training mode with
  \<^verbatim>\<open>add_noise\<close>, the noisy logits. The result holds \<^verbatim>\<open>logits_gate\<close>, \<^verbatim>\<open>logits\<close> and,
  when the noisy branch ran, \<^verbatim>\<open>logits_noise\<close> and \<^verbatim>\<open>noise_control\<close> (which no other
  branch assigns). All tensors of the elementwise operations have the shape of
  \<^verbatim>\<open>logits_gate\<close> in a gate that \<^verbatim>\<open>__init__\<close> built.
\<close>

definition perturb ::
  "(nat \<Rightarrow> nat \<Rightarrow> real) \<Rightarrow> real \<Rightarrow> tensor2 \<Rightarrow> tensor2 \<Rightarrow> tensor2 \<times> tensor2 \<times> (tensor2 \<times> tensor2) option"
  where
  "perturb z noise_epsilon logits_gate noise_mm =
     (let noise_control = map (map (\<lambda>v. softplus v + noise_epsilon)) noise_mm;
          logits_noise = map2 (map2 (*)) (randn_like z logits_gate) noise_control;
          logits = map2 (map2 (+)) logits_gate logits_noise
      in (logits_gate, logits, Some (logits_noise, noise_control)))"

definition forward_logits ::
  "gate \<Rightarrow> (nat \<Rightarrow> nat \<Rightarrow> real) \<Rightarrow> real \<Rightarrow> tensor2
     \<Rightarrow> error + (tensor2 \<times> tensor2 \<times> (tensor2 \<times> tensor2) option)" where
  "forward_logits g z noise_epsilon x =
     (case network_forward (gate_network g) x of
        Inl e \<Rightarrow> Inl e
      | Inr logits_gate \<Rightarrow>
          if training g \<and> add_noise g then
            (case linear_forward (weight_noise g) x of
               Inl e \<Rightarrow> Inl e
             | Inr noise_mm \<Rightarrow> Inr (perturb z noise_epsilon logits_gate noise_mm))
          else Inr (logits_gate, logits_gate, None))"

text \<open>Lines 190 to 197 of \<^verbatim>\<open>forward_return_scores\<close>: the same, but for line 192, which
  passes the module \<^verbatim>\<open>self.weight_noise\<close> to \<^verbatim>\<open>torch.mm\<close>.\<close>

definition forward_return_scores_logits ::
  "gate \<Rightarrow> (nat \<Rightarrow> nat \<Rightarrow> real) \<Rightarrow> real \<Rightarrow> tensor2
     \<Rightarrow> error + (tensor2 \<times> tensor2 \<times> (tensor2 \<times> tensor2) option)" where
  "forward_return_scores_logits g z noise_epsilon x =
     (case network_forward (gate_network g) x of
        Inl e \<Rightarrow> Inl e
      | Inr logits_gate \<Rightarrow>
          if training g \<and> add_noise g then
            (case torch_mm (Tensor x) (Module (weight_noise g)) of
               Inl e \<Rightarrow> Inl e
             | Inr noise_mm \<Rightarrow> Inr (perturb z noise_epsilon logits_gate noise_mm))
          else Inr (logits_gate, logits_gate, None))"

text \<open>Lines 124 to 133 (and 206 to 215): \<^verbatim>\<open>top_logits\<close>, \<^verbatim>\<open>top_k_indices\<close> and
  \<^verbatim>\<open>top_k_scores\<close>.\<close>

definition select_top_k ::
  "kernels \<Rightarrow> gate \<Rightarrow> tensor2 \<Rightarrow> error + (tensor2 \<times> long2 \<times> tensor2)" where
  "select_top_k K g logits =
     (case topk logits (min (num_selects g + 1) (num_experts g)) of
        Inl e \<Rightarrow> Inl e
      | Inr (top_logits, top_indices) \<Rightarrow>
          (let top_k_logits = map (take (num_selects g)) top_logits;
               top_k_indices = map (take (num_selects g)) top_indices;
               top_k_scores =
                 (if use_softmax g then map (softmax K) top_k_logits else top_k_logits)
           in Inr (top_logits, top_k_indices, top_k_scores)))"

text \<open>Lines 155 to 157 and 162: the positions read from the flattened \<^verbatim>\<open>top_logits\<close>,
  as Python integers.\<close>

definition threshold_positions_if_in :: "nat \<Rightarrow> nat \<Rightarrow> nat \<Rightarrow> int list" where
  "threshold_positions_if_in batch_size m k = map (\<lambda>i. int i * int m + int k) [0..<batch_size]"

definition threshold_positions_if_out :: "nat \<Rightarrow> nat \<Rightarrow> nat \<Rightarrow> int list" where
  "threshold_positions_if_out batch_size m k =
     map (\<lambda>p. p - 1) (threshold_positions_if_in batch_size m k)"

text \<open>Lines 161 and 167 to 173 on one row; the thresholds \<open>t_in\<close> and \<open>t_out\<close> of the row
  broadcast over its entries.\<close>

definition prob_row :: "tensor1 \<Rightarrow> tensor1 \<Rightarrow> tensor1 \<Rightarrow> real \<Rightarrow> real \<Rightarrow> tensor1" where
  "prob_row logits_gate logits_noise noise_control t_in t_out =
     map (\<lambda>(lg, ln, nc).
            if ln > t_in then normal_cdf ((lg - t_in) / nc) else normal_cdf ((lg - t_out) / nc))
         (zip logits_gate (zip logits_noise noise_control))"

text \<open>Lines 146 to 174 (and 228 to 256): the load under noise; \<open>n\<close> is the number of
  columns of the logits and \<open>m\<close> that of \<^verbatim>\<open>top_logits\<close>. Devices are not modelled:
  moving the buffers \<^verbatim>\<open>mean\<close> and \<^verbatim>\<open>std\<close> to the device of \<open>x\<close> changes no value.\<close>

definition noisy_load ::
  "gate \<Rightarrow> nat \<Rightarrow> tensor2 \<Rightarrow> tensor2 \<Rightarrow> tensor2 \<Rightarrow> tensor2 \<Rightarrow> error + tensor1" where
  "noisy_load g n logits_gate logits_noise noise_control top_logits =
     (let batch_size = length logits_gate;
          m = min (num_selects g + 1) (num_experts g);
          top_values_flat = concat top_logits
      in case gather top_values_flat (threshold_positions_if_in batch_size m (num_selects g)) of
           Inl e \<Rightarrow> Inl e
         | Inr threshold_if_in \<Rightarrow>
             (case gather top_values_flat
                     (threshold_positions_if_out batch_size m (num_selects g)) of
                Inl e \<Rightarrow> Inl e
              | Inr threshold_if_out \<Rightarrow>
                  Inr (sum0 n
                    (map (\<lambda>(lg, ln, nc, t_in, t_out). prob_row lg ln nc t_in t_out)
                       (zip logits_gate (zip logits_noise (zip noise_control
                          (zip threshold_if_in threshold_if_out))))))))"

text \<open>Lines 138 to 176 (and 220 to 258): \<^verbatim>\<open>importance\<close> and \<^verbatim>\<open>load\<close>. The count of the
  branch without noise is an integer tensor, which \<^verbatim>\<open>cv_squared\<close> converts with
  \<^verbatim>\<open>float()\<close>.\<close>

definition balance_stats ::
  "gate \<Rightarrow> tensor2 \<Rightarrow> tensor2 \<Rightarrow> (tensor2 \<times> tensor2) option \<Rightarrow> tensor2 \<Rightarrow> long2 \<Rightarrow> tensor2
     \<Rightarrow> error + (tensor1 \<times> tensor1)" where
  "balance_stats g logits logits_gate noise top_logits top_k_indices top_k_scores =
     (let n = network_out (gate_network g);
          zeros = map (map (\<lambda>_. 0)) logits
      in case scatter zeros top_k_indices top_k_scores of
           Inl e \<Rightarrow> Inl e
         | Inr scores_filtered \<Rightarrow>
             (let importance = sum0 n scores_filtered in
              if add_noise g then
                (case noise of
                   None \<Rightarrow> Inl NameError
                 | Some (logits_noise, noise_control) \<Rightarrow>
                     (case noisy_load g n logits_gate logits_noise noise_control top_logits of
                        Inl e \<Rightarrow> Inl e
                      | Inr load \<Rightarrow> Inr (importance, load)))
              else Inr (importance, map real (count_positive n scores_filtered))))"

text \<open>Lines 179 and 180 (and 261, 262).\<close>

definition gate_loss_of :: "kernels \<Rightarrow> real \<Rightarrow> tensor1 \<times> tensor1 \<Rightarrow> flt" where
  "gate_loss_of K loss_coef st =
     (case st of (importance, load) \<Rightarrow>
        mul32 K (add32 K (cv_squared K importance (1 / 10 ^ 10))
                         (cv_squared K load (1 / 10 ^ 10)))
                (Finite loss_coef))"

text \<open>
  \<^verbatim>\<open>forward\<close> up to line 176, with the local variables \<^verbatim>\<open>importance\<close> and \<^verbatim>\<open>load\<close>
  of the balance branch beside the two tensors it returns; \<^verbatim>\<open>forward\<close> itself turns
  them into \<^verbatim>\<open>gate_loss\<close>. \<open>z\<close> is the sample \<^verbatim>\<open>randn_like\<close> draws in this call;
  \<^verbatim>\<open>noise_epsilon\<close> and \<^verbatim>\<open>loss_coef\<close> (both 0.01 by default) are explicit arguments.
\<close>

definition forward_locals ::
  "kernels \<Rightarrow> gate \<Rightarrow> (nat \<Rightarrow> nat \<Rightarrow> real) \<Rightarrow> real \<Rightarrow> tensor2
     \<Rightarrow> error + (long2 \<times> tensor2 \<times> (tensor1 \<times> tensor1) option)" where
  "forward_locals K g z noise_epsilon x =
     (case forward_logits g z noise_epsilon x of
        Inl e \<Rightarrow> Inl e
      | Inr (logits_gate, logits, noise) \<Rightarrow>
          (case select_top_k K g logits of
             Inl e \<Rightarrow> Inl e
           | Inr (top_logits, top_k_indices, top_k_scores) \<Rightarrow>
               if training g \<and> use_balance g then
                 (case balance_stats g logits logits_gate noise top_logits top_k_indices
                         top_k_scores of
                    Inl e \<Rightarrow> Inl e
                  | Inr st \<Rightarrow> Inr (top_k_indices, top_k_scores, Some st))
               else Inr (top_k_indices, top_k_scores, None)))"

definition forward ::
  "kernels \<Rightarrow> gate \<Rightarrow> (nat \<Rightarrow> nat \<Rightarrow> real) \<Rightarrow> real \<Rightarrow> real \<Rightarrow> tensor2
     \<Rightarrow> error + (long2 \<times> tensor2 \<times> flt option)" where
  "forward K g z noise_epsilon loss_coef x =
     (case forward_locals K g z noise_epsilon x of
        Inl e \<Rightarrow> Inl e
      | Inr (top_k_indices, top_k_scores, st) \<Rightarrow>
          Inr (top_k_indices, top_k_scores, map_option (gate_loss_of K loss_coef) st))"

text \<open>\<^verbatim>\<open>forward_return_scores\<close>: lines 190 to 268.\<close>

definition forward_return_scores ::
  "kernels \<Rightarrow> gate \<Rightarrow> (nat \<Rightarrow> nat \<Rightarrow> real) \<Rightarrow> real \<Rightarrow> real \<Rightarrow> tensor2
     \<Rightarrow> error + (tensor2 \<times> flt option)" where
  "forward_return_scores K g z noise_epsilon loss_coef x =
     (case forward_return_scores_logits g z noise_epsilon x of
        Inl e \<Rightarrow> Inl e
      | Inr (logits_gate, logits, noise) \<Rightarrow>
          (let scores = (if use_softmax g then map (softmax K) logits else logits) in
           case select_top_k K g logits of
             Inl e \<Rightarrow> Inl e
           | Inr (top_logits, top_k_indices, top_k_scores) \<Rightarrow>
               if training g \<and> use_balance g then
                 (case balance_stats g logits logits_gate noise top_logits top_k_indices
                         top_k_scores of
                    Inl e \<Rightarrow> Inl e
                  | Inr st \<Rightarrow> Inr (scores, Some (gate_loss_of K loss_coef st)))
               else Inr (scores, None)))"

subsection \<open>Gates that the constructor can have built\<close>

text \<open>The shapes \<^verbatim>\<open>__init__\<close> establishes and that training or loading a checkpoint
  keeps: every weight row has \<open>in_features\<close> entries, and the sub-modules map
  \<open>input_size\<close> features to \<open>num_experts\<close>.\<close>

definition wf_linear :: "nat \<Rightarrow> nat \<Rightarrow> linear \<Rightarrow> bool" where
  "wf_linear n_in n_out l =
     (in_features l = n_in \<and> out_features l = n_out \<and>
      list_all (\<lambda>w. length w = n_in) (weight l))"

fun wf_network :: "nat \<Rightarrow> nat \<Rightarrow> network \<Rightarrow> bool" where
  "wf_network n_in n_out (LinearNet l) = wf_linear n_in n_out l"
| "wf_network n_in n_out (MlpNet l1 l2) = (wf_linear n_in n_out l1 \<and> wf_linear n_out n_out l2)"

definition wf_gate :: "gate \<Rightarrow> bool" where
  "wf_gate g =
     (num_selects g \<le> num_experts g \<and>
      wf_network (input_size g) (num_experts g) (gate_network g) \<and>
      wf_linear (input_size g) (num_experts g) (weight_noise g))"

text \<open>The gate that \<^verbatim>\<open>__init__\<close> returns for the network type \<^verbatim>\<open>linear\<close>: every
  weight is zero, whatever the random draws were.\<close>

definition linear_gate :: "nat \<Rightarrow> nat \<Rightarrow> nat \<Rightarrow> bool \<Rightarrow> bool \<Rightarrow> bool \<Rightarrow> gate" where
  "linear_gate i n k b a s =
     \<lparr>input_size = i, num_experts = n, num_selects = k, use_balance = b, add_noise = a,
      use_softmax = s,
      gate_network = LinearNet \<lparr>in_features = i, weight = replicate n (replicate i 0)\<rparr>,
      weight_noise = \<lparr>in_features = i, weight = replicate n (replicate i 0)\<rparr>,
      training = True\<rparr>"

text \<open>An input of shape \<open>(batch_size, input_size)\<close>.\<close>

definition input_shape :: "gate \<Rightarrow> tensor2 \<Rightarrow> bool" where
  "input_shape g x = list_all (\<lambda>r. length r = input_size g) x"

text \<open>A matrix with \<open>b\<close> rows of \<open>n\<close> entries.\<close>

definition shape2 :: "nat \<Rightarrow> nat \<Rightarrow> 'a list list \<Rightarrow> bool" where
  "shape2 b n t = (length t = b \<and> list_all (\<lambda>r. length r = n) t)"

text \<open>A row of expert indices: pairwise distinct, each in \<open>[0, n)\<close>.\<close>

definition index_row :: "nat \<Rightarrow> int list \<Rightarrow> bool" where
  "index_row n r = (distinct r \<and> list_all (\<lambda>j. 0 \<le> j \<and> j < int n) r)"

text \<open>The matrix \<^verbatim>\<open>scores_filtered\<close> that the scatter of line 139 builds.\<close>

definition scores_filtered :: "tensor2 \<Rightarrow> long2 \<Rightarrow> tensor2 \<Rightarrow> tensor2" where
  "scores_filtered logits idx sc =
     map (\<lambda>(row, ix, s). scatter_row row ix s) (zip (map (map (\<lambda>_. 0)) logits) (zip idx sc))"

text \<open>Expert \<open>e\<close> is selected in a row with a positive score.\<close>

definition selected_positive :: "nat \<Rightarrow> int list \<times> real list \<Rightarrow> bool" where
  "selected_positive e p =
     (case map_of (zip (fst p) (snd p)) (int e) of None \<Rightarrow> False | Some v \<Rightarrow> 0 < v)"

section \<open>Clustering distribution (smoe/entrypoint/analysis/clustering\_distribution.py)\<close>

text \<open>
  A record of a JSON-lines file is a Python dict; only string-valued fields are
  modelled, since \<^verbatim>\<open>main\<close> reads the \<^verbatim>\<open>file\<close> field alone and calls
  \<^verbatim>\<open>split\<close> on it. The tally \<^verbatim>\<open>source_to_num\<close> is a dict with insertion order,
  modelled as an association list whose keys never change.
\<close>

type_synonym json_record = "string \<rightharpoonup> string"

type_synonym tally = "(string \<times> int) list"

definition source_to_num_init :: tally where
  "source_to_num_init =
     [(''arxiv'', 0), (''books'', 0), (''c4'', 0), (''commoncrawl'', 0),
      (''github'', 0), (''stackexchange'', 0), (''wikipedia'', 0)]"

text \<open>\<^verbatim>\<open>s.split("-")[0]\<close>: the portion of \<open>s\<close> before its first \<open>-\<close> (all of \<open>s\<close> when
  it has none).\<close>

definition split_first :: "string \<Rightarrow> string" where
  "split_first s = takeWhile (\<lambda>c. c \<noteq> CHR ''-'') s"

text \<open>\<^verbatim>\<open>d[k] += 1\<close>: raises KeyError when \<open>k\<close> is not a key of \<open>d\<close>.\<close>

fun increment :: "tally \<Rightarrow> string \<Rightarrow> error + tally" where
  "increment [] k = Inl (KeyError k)"
| "increment ((k', v) # d) k =
     (if k' = k then Inr ((k', v + 1) # d)
      else (case increment d k of Inl e \<Rightarrow> Inl e | Inr d' \<Rightarrow> Inr ((k', v) # d')))"

text \<open>The loop \<^verbatim>\<open>for ins in data\<close> (lines 27 to 29), from the tally reached so far.\<close>

fun tally_loop :: "tally \<Rightarrow> json_record list \<Rightarrow> error + tally" where
  "tally_loop d [] = Inr d"
| "tally_loop d (ins # data) =
     (case ins ''file'' of
        None \<Rightarrow> Inl (KeyError ''file'')
      | Some f \<Rightarrow>
          (case increment d (split_first f) of
             Inl e \<Rightarrow> Inl e
           | Inr d' \<Rightarrow> tally_loop d' data))"

definition tally_file :: "json_record list \<Rightarrow> error + tally" where
  "tally_file data = tally_loop source_to_num_init data"

text \<open>The arguments of one call of the external chart renderer \<^verbatim>\<open>barh\<close>.\<close>

record barh_call =
  source_to_num :: tally
  title :: string
  save_filepath :: string

text \<open>The body of the loop over the files (lines 16 to 34), for a file with stem
  \<open>cluster_idx\<close> and records \<open>data\<close> (as \<^verbatim>\<open>load_jsonlines\<close> returned them).\<close>

definition process_file :: "string \<Rightarrow> json_record list \<Rightarrow> error + barh_call" where
  "process_file cluster_idx data =
     (case tally_file data of
        Inl e \<Rightarrow> Inl e
      | Inr d \<Rightarrow>
          Inr \<lparr>source_to_num = d,
               title = ''Cluster '' @ cluster_idx,
               save_filepath = ''results/analysis/cluster_'' @ cluster_idx @ ''.png''\<rparr>)"

text \<open>\<^verbatim>\<open>main\<close>: the files in the order the directory scan yields them; the first
  exception ends the run, after the charts of the earlier files.\<close>

fun main :: "(string \<times> json_record list) list \<Rightarrow> barh_call list \<times> error option" where
  "main [] = ([], None)"
| "main ((cluster_idx, data) # files) =
     (case process_file cluster_idx data of
        Inl e \<Rightarrow> ([], Some e)
      | Inr c \<Rightarrow> (case main files of (cs, r) \<Rightarrow> (c # cs, r)))"

definition known_sources :: "string list" where
  "known_sources = map fst source_to_num_init"

text \<open>The source key of a record: the prefix of its \<^verbatim>\<open>file\<close> field, when it has one.\<close>

definition source_of :: "json_record \<Rightarrow> string option" where
  "source_of ins = map_option split_first (ins ''file'')"

text \<open>The number of records whose source key is \<open>k\<close>.\<close>

definition count_source :: "json_record list \<Rightarrow> string \<Rightarrow> int" where
  "count_source data k = int (length (filter (\<lambda>ins. source_of ins = Some k) data))"

text \<open>A record that \<^verbatim>\<open>main\<close> can count with the keys \<open>ks\<close>.\<close>

definition countable_record :: "string list \<Rightarrow> json_record \<Rightarrow> bool" where
  "countable_record ks ins = (case source_of ins of None \<Rightarrow> False | Some s \<Rightarrow> s \<in> set ks)"

subsection \<open>Properties of the tally\<close>

lemma increment_keys: "increment d k = Inr d' \<Longrightarrow> map fst d' = map fst d"
  by (induction d arbitrary: d') (auto split: if_splits sum.splits)

lemma increment_known:
  "k \<in> set (map fst d) \<Longrightarrow> \<exists>d'. increment d k = Inr d'"
proof (induction d)
  case Nil
  then show ?case by simp
next
  case (Cons p d)
  obtain a v where p: "p = (a, v)" by (cases p)
  show ?case
  proof (cases "a = k")
    case True
    with p show ?thesis by simp
  next
    case False
    with Cons.prems p have "k \<in> set (map fst d)" by auto
    from Cons.IH [OF this] obtain d' where "increment d k = Inr d'" by blast
    with False p show ?thesis by simp
  qed
qed

lemma increment_unknown: "k \<notin> set (map fst d) \<Longrightarrow> increment d k = Inl (KeyError k)"
  by (induction d) auto

lemma increment_lookup:
  "distinct (map fst d) \<Longrightarrow> increment d k = Inr d' \<Longrightarrow>
     map_of d' k' = (if k' = k then map_option (\<lambda>v. v + 1) (map_of d k') else map_of d k')"
proof (induction d arbitrary: d')
  case Nil
  then show ?case by simp
next
  case (Cons p d)
  obtain a v where p: "p = (a, v)" by (cases p)
  show ?case
  proof (cases "a = k")
    case True
    with Cons.prems p show ?thesis by auto
  next
    case False
    with Cons.prems p obtain d2 where d2: "increment d k = Inr d2" "d' = (a, v) # d2"
      by (auto split: sum.splits)
    from Cons.prems have "distinct (map fst d)" by simp
    from Cons.IH [OF this d2(1)] False d2(2) p show ?thesis by auto
  qed
qed

lemma tally_loop_ok:
  "map fst d = ks \<Longrightarrow> distinct ks \<Longrightarrow> list_all (countable_record ks) data \<Longrightarrow>
   \<exists>d'. tally_loop d data = Inr d' \<and> map fst d' = ks \<and>
     (\<forall>k. map_of d' k = map_option (\<lambda>v. v + count_source data k) (map_of d k))"
proof (induction data arbitrary: d)
  case Nil
  then show ?case by (simp add: count_source_def option.map_ident)
next
  case (Cons ins data)
  from Cons.prems(3) obtain f where f: "ins ''file'' = Some f"
    and known: "split_first f \<in> set ks"
    by (auto simp: source_of_def countable_record_def split: option.splits)
  from known Cons.prems(1) have "split_first f \<in> set (map fst d)" by simp
  from increment_known [OF this] obtain d1 where d1: "increment d (split_first f) = Inr d1"
    by blast
  have keys1: "map fst d1 = ks" using increment_keys [OF d1] Cons.prems(1) by simp
  have rest: "list_all (countable_record ks) data"
    using Cons.prems(3) by simp
  from Cons.IH [OF keys1 Cons.prems(2) rest] obtain d' where d':
    "tally_loop d1 data = Inr d'" "map fst d' = ks"
    "\<forall>k. map_of d' k = map_option (\<lambda>v. v + count_source data k) (map_of d1 k)"
    by blast
  have step: "tally_loop d (ins # data) = Inr d'"
    using f d1 d'(1) by simp
  have dist: "distinct (map fst d)" using Cons.prems(1,2) by simp
  have "map_of d' k = map_option (\<lambda>v. v + count_source (ins # data) k) (map_of d k)" for k
  proof -
    have src: "source_of ins = Some (split_first f)" using f by (simp add: source_of_def)
    have l1: "map_of d1 k =
        (if k = split_first f then map_option (\<lambda>v. v + 1) (map_of d k) else map_of d k)"
      by (rule increment_lookup [OF dist d1])
    show ?thesis
      using d'(3) l1 src
      by (cases "map_of d k") (auto simp: count_source_def)
  qed
  with step d'(2) show ?case by simp
qed

lemma tally_loop_unknown:
  "map fst d = ks \<Longrightarrow> list_all (\<lambda>ins. ins ''file'' \<noteq> None) data \<Longrightarrow>
   \<not> list_all (countable_record ks) data \<Longrightarrow>
   \<exists>k. k \<notin> set ks \<and> tally_loop d data = Inl (KeyError k)"
proof (induction data arbitrary: d)
  case Nil
  then show ?case by simp
next
  case (Cons ins data)
  from Cons.prems(2) obtain f where f: "ins ''file'' = Some f" by auto
  have src: "source_of ins = Some (split_first f)" using f by (simp add: source_of_def)
  show ?case
  proof (cases "split_first f \<in> set ks")
    case False
    with Cons.prems(1) have "split_first f \<notin> set (map fst d)" by simp
    from increment_unknown [OF this] f False show ?thesis by auto
  next
    case True
    with Cons.prems(1) have "split_first f \<in> set (map fst d)" by simp
    from increment_known [OF this] obtain d1 where d1: "increment d (split_first f) = Inr d1"
      by blast
    have keys1: "map fst d1 = ks" using increment_keys [OF d1] Cons.prems(1) by simp
    have now: "countable_record ks ins" using src True by (simp add: countable_record_def)
    with Cons.prems(3) have bad: "\<not> list_all (countable_record ks) data" by simp
    from Cons.prems(2) have files: "list_all (\<lambda>ins. ins ''file'' \<noteq> None) data" by simp
    from Cons.IH [OF keys1 files bad] obtain k where
      "k \<notin> set ks" "tally_loop d1 data = Inl (KeyError k)" by blast
    then show ?thesis using f d1 by auto
  qed
qed

lemma known_sources_distinct: "distinct known_sources"
  by (simp add: known_sources_def source_to_num_init_def)

text \<open>
  Claim C9. For a cluster file whose records all have a \<^verbatim>\<open>file\<close> field with a prefix
  among the seven known sources, \<^verbatim>\<open>main\<close> reaches the chart with a tally that has
  exactly the seven keys, each mapped to the number of records with that prefix. The file
  \<^verbatim>\<open>3.jsonl\<close> with the fields \<^verbatim>\<open>arxiv-001\<close>, \<^verbatim>\<open>arxiv-002\<close>, \<^verbatim>\<open>github-005\<close> gives
  arxiv 2, github 1 and 0 elsewhere. A record whose prefix is not among the seven makes
  the run end with a KeyError for a key outside the seven.
\<close>

theorem clustering_tally_correct:
  "(list_all (countable_record known_sources) data \<longrightarrow>
      (\<exists>d. tally_file data = Inr d \<and> map fst d = known_sources \<and>
        (\<forall>k \<in> set known_sources. map_of d k = Some (count_source data k)))) \<and>
   process_file ''3''
       [[''file'' \<mapsto> ''arxiv-001''], [''file'' \<mapsto> ''arxiv-002''], [''file'' \<mapsto> ''github-005'']]
     = Inr \<lparr>source_to_num =
              [(''arxiv'', 2), (''books'', 0), (''c4'', 0), (''commoncrawl'', 0),
               (''github'', 1), (''stackexchange'', 0), (''wikipedia'', 0)],
            title = ''Cluster 3'',
            save_filepath = ''results/analysis/cluster_3.png''\<rparr> \<and>
   (list_all (\<lambda>ins. ins ''file'' \<noteq> None) data \<and>
    \<not> list_all (countable_record known_sources) data \<longrightarrow>
      (\<exists>k. k \<notin> set known_sources \<and> tally_file data = Inl (KeyError k)))"
proof (intro conjI impI)
  assume ok: "list_all (countable_record known_sources) data"
  have keys: "map fst source_to_num_init = known_sources" by (simp add: known_sources_def)
  from tally_loop_ok [OF keys known_sources_distinct ok] obtain d where d:
    "tally_loop source_to_num_init data = Inr d" "map fst d = known_sources"
    "\<forall>k. map_of d k = map_option (\<lambda>v. v + count_source data k) (map_of source_to_num_init k)"
    by blast
  have "map_of d k = Some (count_source data k)" if "k \<in> set known_sources" for k
  proof -
    from that have "map_of source_to_num_init k = Some 0"
      by (auto simp: known_sources_def source_to_num_init_def)
    with d(3) show ?thesis by simp
  qed
  with d(1,2) show "\<exists>d. tally_file data = Inr d \<and> map fst d = known_sources \<and>
        (\<forall>k \<in> set known_sources. map_of d k = Some (count_source data k))"
    by (auto simp: tally_file_def)
next
  show "process_file ''3''
       [[''file'' \<mapsto> ''arxiv-001''], [''file'' \<mapsto> ''arxiv-002''], [''file'' \<mapsto> ''github-005'']]
     = Inr \<lparr>source_to_num =
              [(''arxiv'', 2), (''books'', 0), (''c4'', 0), (''commoncrawl'', 0),
               (''github'', 1), (''stackexchange'', 0), (''wikipedia'', 0)],
            title = ''Cluster 3'',
            save_filepath = ''results/analysis/cluster_3.png''\<rparr>"
    by (simp add: process_file_def tally_file_def source_to_num_init_def split_first_def)
next
  assume "list_all (\<lambda>ins. ins ''file'' \<noteq> None) data \<and>
    \<not> list_all (countable_record known_sources) data"
  then have a: "list_all (\<lambda>ins. ins ''file'' \<noteq> None) data"
    and b: "\<not> list_all (countable_record known_sources) data" by simp_all
  have keys: "map fst source_to_num_init = known_sources" by (simp add: known_sources_def)
  from tally_loop_unknown [OF keys a b]
  show "\<exists>k. k \<notin> set known_sources \<and> tally_file data = Inl (KeyError k)"
    by (simp add: tally_file_def)
qed

theorem clustering_tally_correct_witness:
  "list_all (countable_record known_sources)
      [[''file'' \<mapsto> ''c4-7''], [''file'' \<mapsto> ''books-1-2'']] \<and>
   (\<exists>d. tally_file [[''file'' \<mapsto> ''c4-7''], [''file'' \<mapsto> ''books-1-2'']] = Inr d \<and>
        map_of d ''c4'' = Some 1 \<and> map_of d ''github'' = Some 0) \<and>
   list_all (\<lambda>ins. ins ''file'' \<noteq> None) [[''file'' \<mapsto> ''c4-7''], [''file'' \<mapsto> ''pile-3'']] \<and>
   \<not> list_all (countable_record known_sources)
      [[''file'' \<mapsto> ''c4-7''], [''file'' \<mapsto> ''pile-3'']] \<and>
   (\<exists>k. k \<notin> set known_sources \<and>
        tally_file [[''file'' \<mapsto> ''c4-7''], [''file'' \<mapsto> ''pile-3'']] = Inl (KeyError k))"
proof -
  let ?good = "[[''file'' \<mapsto> ''c4-7''], [''file'' \<mapsto> ''books-1-2'']] :: json_record list"
  let ?bad = "[[''file'' \<mapsto> ''c4-7''], [''file'' \<mapsto> ''pile-3'']] :: json_record list"
  have g: "list_all (countable_record known_sources) ?good"
    by (simp add: countable_record_def source_of_def split_first_def known_sources_def
        source_to_num_init_def)
  have b1: "list_all (\<lambda>ins. ins ''file'' \<noteq> None) ?bad" by simp
  have b2: "\<not> list_all (countable_record known_sources) ?bad"
    by (simp add: countable_record_def source_of_def split_first_def known_sources_def
        source_to_num_init_def)
  from clustering_tally_correct [of ?good] g obtain d where d:
    "tally_file ?good = Inr d"
    "\<forall>k \<in> set known_sources. map_of d k = Some (count_source ?good k)"
    by blast
  have "''c4'' \<in> set known_sources" "''github'' \<in> set known_sources"
    by (simp_all add: known_sources_def source_to_num_init_def)
  with d(2) have "map_of d ''c4'' = Some (count_source ?good ''c4'')"
    "map_of d ''github'' = Some (count_source ?good ''github'')" by blast+
  then have c: "map_of d ''c4'' = Some 1" "map_of d ''github'' = Some 0"
    by (simp_all add: count_source_def source_of_def split_first_def)
  from clustering_tally_correct [of ?bad] b1 b2
  have e: "\<exists>k. k \<notin> set known_sources \<and> tally_file ?bad = Inl (KeyError k)" by blast
  from g d(1) c b1 b2 e show ?thesis by blast
qed

section \<open>Properties of the gating module\<close>

subsection \<open>Shapes\<close>

lemma shape2_Nil [simp]: "shape2 b n [] = (b = 0)"
  by (auto simp: shape2_def)

lemma shape2_Cons [simp]: "shape2 b n (r # t) = (length r = n \<and> (\<exists>b'. b = Suc b' \<and> shape2 b' n t))"
  by (auto simp: shape2_def)

lemma shape2_length: "shape2 b n t \<Longrightarrow> length t = b"
  by (simp add: shape2_def)

lemma shape2_nth: "shape2 b n t \<Longrightarrow> i < b \<Longrightarrow> length (t ! i) = n"
  by (simp add: shape2_def list_all_length)

lemma shape2_map: "shape2 b n t \<Longrightarrow> (\<And>r. length r = n \<Longrightarrow> length (f r) = n') \<Longrightarrow> shape2 b n' (map f t)"
  by (simp add: shape2_def list_all_iff)

lemma shape2_map2:
  "shape2 b n s \<Longrightarrow> shape2 b n t \<Longrightarrow> shape2 b n (map2 (map2 f) s t)"
  by (auto simp: shape2_def list_all_iff set_zip)

lemma shape2_randn_like: "shape2 b n t \<Longrightarrow> shape2 b n (randn_like z t)"
  by (simp add: shape2_def randn_like_def list_all_length)

lemma linear_forward_ok:
  "wf_linear i n l \<Longrightarrow> list_all (\<lambda>r. length r = i) x \<Longrightarrow>
     \<exists>y. linear_forward l x = Inr y \<and> shape2 (length x) n y"
  by (simp add: linear_forward_def wf_linear_def shape2_def out_features_def list_all_iff)

lemma linear_forward_bad:
  "wf_linear i n l \<Longrightarrow> \<not> list_all (\<lambda>r. length r = i) x \<Longrightarrow>
     linear_forward l x = Inl ShapeMismatch"
  by (simp add: linear_forward_def wf_linear_def)

lemma network_forward_ok:
  assumes "wf_network i n net" and "list_all (\<lambda>r. length r = i) x"
  shows "\<exists>y. network_forward net x = Inr y \<and> shape2 (length x) n y"
proof (cases net)
  case (LinearNet l)
  with assms show ?thesis by (simp add: linear_forward_ok)
next
  case (MlpNet l1 l2)
  with assms have w1: "wf_linear i n l1" and w2: "wf_linear n n l2" by simp_all
  from linear_forward_ok [OF w1 assms(2)] obtain h where
    h: "linear_forward l1 x = Inr h" "shape2 (length x) n h" by blast
  from h(2) have "list_all (\<lambda>r. length r = n) (map (map tanh) h)"
    by (simp add: shape2_def list_all_iff)
  from linear_forward_ok [OF w2 this] h show ?thesis
    using MlpNet by (auto simp: shape2_def)
qed

lemma network_forward_bad:
  assumes "wf_network i n net" and "\<not> list_all (\<lambda>r. length r = i) x"
  shows "network_forward net x = Inl ShapeMismatch"
proof (cases net)
  case (LinearNet l)
  with assms show ?thesis by (simp add: linear_forward_bad)
next
  case (MlpNet l1 l2)
  with assms have "wf_linear i n l1" by simp
  from linear_forward_bad [OF this assms(2)] MlpNet show ?thesis by simp
qed

lemma wf_network_out: "wf_network i n net \<Longrightarrow> network_out net = n"
  by (cases net) (simp_all add: wf_linear_def)

lemma forward_logits_ok:
  assumes "wf_gate g" and "input_shape g x"
  shows "\<exists>lg lo noise. forward_logits g z ne x = Inr (lg, lo, noise) \<and>
           shape2 (length x) (num_experts g) lg \<and> shape2 (length x) (num_experts g) lo \<and>
           (if training g \<and> add_noise g
            then \<exists>lnz nc. noise = Some (lnz, nc) \<and> shape2 (length x) (num_experts g) lnz \<and>
                   shape2 (length x) (num_experts g) nc
            else noise = None \<and> lo = lg)"
proof -
  from assms have wn: "wf_network (input_size g) (num_experts g) (gate_network g)"
    and wl: "wf_linear (input_size g) (num_experts g) (weight_noise g)"
    and xs: "list_all (\<lambda>r. length r = input_size g) x"
    by (simp_all add: wf_gate_def input_shape_def)
  from network_forward_ok [OF wn xs] obtain lg where
    lg: "network_forward (gate_network g) x = Inr lg" "shape2 (length x) (num_experts g) lg"
    by blast
  show ?thesis
  proof (cases "training g \<and> add_noise g")
    case False
    with lg show ?thesis by (auto simp: forward_logits_def)
  next
    case True
    from linear_forward_ok [OF wl xs] obtain mm where
      mm: "linear_forward (weight_noise g) x = Inr mm" "shape2 (length x) (num_experts g) mm"
      by blast
    let ?nc = "map (map (\<lambda>v. softplus v + ne)) mm"
    let ?lnz = "map2 (map2 (*)) (randn_like z lg) ?nc"
    have nc: "shape2 (length x) (num_experts g) ?nc"
      using mm(2) by (rule shape2_map) simp
    have lnz: "shape2 (length x) (num_experts g) ?lnz"
      by (rule shape2_map2 [OF shape2_randn_like [OF lg(2)] nc])
    have lo: "shape2 (length x) (num_experts g) (map2 (map2 (+)) lg ?lnz)"
      by (rule shape2_map2 [OF lg(2) lnz])
    from True lg mm nc lnz lo show ?thesis
      by (simp add: forward_logits_def perturb_def Let_def)
  qed
qed

lemma forward_logits_bad:
  assumes "wf_gate g" and "\<not> input_shape g x"
  shows "forward_logits g z ne x = Inl ShapeMismatch"
  using assms network_forward_bad [of "input_size g" "num_experts g" "gate_network g" x]
  by (simp add: wf_gate_def input_shape_def forward_logits_def)

subsection \<open>Top-k selection\<close>

lemma mset_snd_sort_key: "mset (map snd (sort_key f ps)) = mset (map snd ps)"
  by simp

lemma sorted_indices_mset:
  "mset (map snd (sort_key f (zip row (map int [0..<length row])))) = mset (map int [0..<length row])"
proof -
  have "map snd (zip row (map int [0..<length row])) = map int [0..<length row]"
    by (rule map_snd_zip) simp
  with mset_snd_sort_key [of f "zip row (map int [0..<length row])"] show ?thesis
    by (simp only:)
qed

lemma topk_row_length: "length (topk_row k row) = min k (length row)"
  by (simp add: topk_row_def)

lemma topk_row_distinct: "distinct (map snd (topk_row k row))"
proof -
  let ?s = "sort_key (\<lambda>p. - fst p) (zip row (map int [0..<length row]))"
  have "distinct (map int [0..<length row])" by (simp add: distinct_map)
  with mset_eq_imp_distinct_iff [OF sorted_indices_mset [of "\<lambda>p. - fst p" row]]
  have "distinct (map snd ?s)" by blast
  then have "distinct (take k (map snd ?s))" by (rule distinct_take)
  then show ?thesis by (simp add: topk_row_def take_map)
qed

lemma topk_row_range:
  assumes "j \<in> set (map snd (topk_row k row))"
  shows "0 \<le> j \<and> j < int (length row)"
proof -
  let ?s = "sort_key (\<lambda>p. - fst p) (zip row (map int [0..<length row]))"
  from assms have "j \<in> set (take k (map snd ?s))" by (simp add: topk_row_def take_map)
  then have "j \<in> set (map snd ?s)" by (rule in_set_takeD)
  then have "j \<in># mset (map snd ?s)" by simp
  then have "j \<in># mset (map int [0..<length row])" by (simp only: sorted_indices_mset)
  then show ?thesis by auto
qed

lemma topk_ok:
  assumes "shape2 b n t" and "k \<le> n"
  shows "\<exists>tlog ti. topk t k = Inr (tlog, ti) \<and> shape2 b k tlog \<and> shape2 b k ti \<and>
           tlog = map (\<lambda>r. map fst (topk_row k r)) t \<and> ti = map (\<lambda>r. map snd (topk_row k r)) t"
proof -
  from assms have "list_all (\<lambda>r. k \<le> length r) t" by (simp add: shape2_def list_all_iff)
  moreover have "shape2 b k (map (\<lambda>r. map fst (topk_row k r)) t)"
    using assms by (simp add: shape2_def list_all_iff topk_row_length)
  moreover have "shape2 b k (map (\<lambda>r. map snd (topk_row k r)) t)"
    using assms by (simp add: shape2_def list_all_iff topk_row_length)
  ultimately show ?thesis by (simp add: topk_def)
qed

lemma index_row_topk: "length row = n \<Longrightarrow> index_row n (take k (map snd (topk_row m row)))"
proof -
  assume n: "length row = n"
  have "distinct (take k (map snd (topk_row m row)))"
    by (rule distinct_take [OF topk_row_distinct])
  moreover have "0 \<le> j \<and> j < int n" if "j \<in> set (take k (map snd (topk_row m row)))" for j
    using topk_row_range [OF in_set_takeD [OF that]] n by simp
  ultimately show ?thesis by (simp add: index_row_def list_all_iff)
qed

lemma select_top_k_ok:
  assumes "wf_gate g" and "shape2 b (num_experts g) logits"
  shows "\<exists>tlog idx sc. select_top_k K g logits = Inr (tlog, idx, sc) \<and>
           shape2 b (min (num_selects g + 1) (num_experts g)) tlog \<and>
           shape2 b (num_selects g) idx \<and> shape2 b (num_selects g) sc \<and>
           list_all (index_row (num_experts g)) idx \<and>
           sc = (if use_softmax g then map (softmax K) (map (take (num_selects g)) tlog)
                 else map (take (num_selects g)) tlog)"
proof -
  let ?m = "min (num_selects g + 1) (num_experts g)"
  let ?k = "num_selects g"
  from assms(1) have kn: "?k \<le> num_experts g" by (simp add: wf_gate_def)
  have mn: "?m \<le> num_experts g" by simp
  have km: "?k \<le> ?m" using kn by simp
  from topk_ok [OF assms(2) mn] obtain tlog ti where t:
    "topk logits ?m = Inr (tlog, ti)" "shape2 b ?m tlog" "shape2 b ?m ti"
    "ti = map (\<lambda>r. map snd (topk_row ?m r)) logits" by blast
  have s1: "shape2 b ?k (map (take ?k) tlog)"
    using t(2) km by (simp add: shape2_def list_all_iff)
  have s2: "shape2 b ?k (map (take ?k) ti)"
    using t(3) km by (simp add: shape2_def list_all_iff)
  have s3: "shape2 b ?k (map (softmax K) (map (take ?k) tlog))"
    using s1 by (rule shape2_map) (simp add: softmax_def)
  have ix: "list_all (index_row (num_experts g)) (map (take ?k) ti)"
    using assms(2) unfolding t(4)
    by (simp add: list_all_iff shape2_def index_row_topk)
  from t(1,2) s1 s2 s3 ix show ?thesis
    by (simp add: select_top_k_def Let_def)
qed

subsection \<open>Scatter and column counts\<close>

lemma fold_update_length:
  "length (fold (\<lambda>(j, v) r. r[nat j := v]) ps row) = length (row :: real list)"
  by (induction ps arbitrary: row) (auto split: prod.splits)

lemma scatter_row_length: "length (scatter_row row idx src) = length row"
  by (simp add: scatter_row_def fold_update_length)

lemma fold_update_nth:
  fixes row :: "real list"
  assumes "distinct (map fst ps)" and "list_all (\<lambda>p. 0 \<le> fst p) ps" and "e < length row"
  shows "fold (\<lambda>(j, v) r. r[nat j := v]) ps row ! e =
           (case map_of ps (int e) of None \<Rightarrow> row ! e | Some v \<Rightarrow> v)"
  using assms
proof (induction ps arbitrary: row)
  case Nil
  then show ?case by simp
next
  case (Cons p ps)
  obtain j v where p: "p = (j, v)" by (cases p)
  from Cons.prems p have d: "distinct (map fst ps)" and notin: "j \<notin> fst ` set ps"
    and pos: "list_all (\<lambda>p. 0 \<le> fst p) ps" and j0: "0 \<le> j" by auto
  have len: "e < length (row[nat j := v])" using Cons.prems(3) by simp
  have step: "fold (\<lambda>(j, v) r. r[nat j := v]) (p # ps) row ! e =
      (case map_of ps (int e) of None \<Rightarrow> row[nat j := v] ! e | Some v' \<Rightarrow> v')"
    using Cons.IH [OF d pos len] p by simp
  show ?case
  proof (cases "j = int e")
    case True
    with notin have "map_of ps (int e) = None" by (simp add: map_of_eq_None_iff)
    with step True p Cons.prems(3) show ?thesis by simp
  next
    case False
    with j0 have "nat j \<noteq> e" by auto
    then have "row[nat j := v] ! e = row ! e" by simp
    with step False p show ?thesis by (simp split: option.split)
  qed
qed

lemma scatter_row_nth:
  assumes "index_row n idx" and "length src = length idx" and "length r = n" and "e < n"
  shows "scatter_row (map (\<lambda>_. 0) (r :: real list)) idx src ! e =
           (case map_of (zip idx src) (int e) of None \<Rightarrow> 0 | Some v \<Rightarrow> v)"
proof -
  have m: "map fst (zip idx src) = idx" using assms(2) by simp
  have d: "distinct (map fst (zip idx src))" using assms(1) m by (simp add: index_row_def)
  have pos: "list_all (\<lambda>p. 0 \<le> fst p) (zip idx src)"
    using assms(1) by (auto simp: index_row_def list_all_iff dest: set_zip_leftD)
  have len: "e < length (map (\<lambda>_. 0::real) r)" using assms(3,4) by simp
  from fold_update_nth [OF d pos len] assms(3,4) show ?thesis
    by (simp add: scatter_row_def split: option.split)
qed

lemma sum0_length: "length (sum0 n t) = n"
  by (simp add: sum0_def)

lemma count_positive_nth:
  "e < n \<Longrightarrow> count_positive n t ! e = length (filter (\<lambda>r. r ! e > 0) t)"
  by (simp add: count_positive_def)

lemma scatter_ok:
  assumes "shape2 b n t" and "shape2 b k idx" and "shape2 b k src"
    and "list_all (index_row n) idx"
  shows "scatter t idx src = Inr (map (\<lambda>(row, idx, s). scatter_row row idx s) (zip t (zip idx src)))"
proof -
  have "list_all (\<lambda>(row, ix). list_all (\<lambda>j. 0 \<le> j \<and> j < int (length row)) ix) (zip t idx)"
    unfolding list_all_iff
  proof (intro ballI, clarify)
    fix row ix j assume p: "(row, ix) \<in> set (zip t idx)" and j: "j \<in> set ix"
    from p have "row \<in> set t" "ix \<in> set idx" by (auto dest: set_zip_leftD set_zip_rightD)
    with assms(1,4) have "length row = n" "index_row n ix"
      by (auto simp: shape2_def list_all_iff)
    with j show "0 \<le> j \<and> j < int (length row)"
      by (simp add: index_row_def list_all_iff)
  qed
  then show ?thesis by (simp add: scatter_def)
qed

subsection \<open>Threshold positions and the load under noise\<close>

lemma concat_length_shape2: "shape2 b m t \<Longrightarrow> length (concat t) = b * m"
  by (induction t arbitrary: b) auto

lemma positions_in_range:
  assumes "k < m"
  shows "list_all (\<lambda>p. 0 \<le> p \<and> p < int (b * m)) (threshold_positions_if_in b m k)"
  unfolding threshold_positions_if_in_def list_all_iff
proof
  fix p assume "p \<in> set (map (\<lambda>i. int i * int m + int k) [0..<b])"
  then obtain i where i: "i < b" and p: "p = int i * int m + int k" by auto
  have "i * m + k < i * m + m" using assms by simp
  also have "\<dots> = Suc i * m" by simp
  also have "\<dots> \<le> b * m" using i by (intro mult_le_mono1) simp
  finally have lt: "i * m + k < b * m" .
  have "int i * int m + int k = int (i * m + k)" by simp
  also have "\<dots> < int (b * m)" using lt by (simp only: of_nat_less_iff)
  finally have "p < int (b * m)" using p by simp
  moreover have "0 \<le> p" using p by simp
  ultimately show "0 \<le> p \<and> p < int (b * m)" by simp
qed

lemma positions_out_range:
  assumes "k < m" and "0 < k"
  shows "list_all (\<lambda>p. 0 \<le> p \<and> p < int (b * m)) (threshold_positions_if_out b m k)"
  unfolding threshold_positions_if_out_def list_all_iff
proof
  fix q assume "q \<in> set (map (\<lambda>p. p - 1) (threshold_positions_if_in b m k))"
  then obtain p where pm: "p \<in> set (threshold_positions_if_in b m k)" and q: "q = p - 1"
    by auto
  from positions_in_range [OF assms(1), of b] pm have up: "p < int (b * m)"
    by (simp add: list_all_iff)
  from pm obtain i where "p = int i * int m + int k"
    by (auto simp: threshold_positions_if_in_def)
  moreover have "0 \<le> int i * int m" by simp
  ultimately have "1 \<le> p" using assms(2) by linarith
  with up q show "0 \<le> q \<and> q < int (b * m)" by simp
qed


lemma positions_in_bad:
  assumes "0 < b" and "m \<le> k"
  shows "\<not> list_all (\<lambda>p. 0 \<le> p \<and> p < int (b * m)) (threshold_positions_if_in b m k)"
proof -
  have "b - 1 \<in> set [0..<b]" using assms(1) by simp
  then have mem: "int ((b - 1) * m + k) \<in> set (threshold_positions_if_in b m k)"
    unfolding threshold_positions_if_in_def set_map
    by (intro image_eqI [where x = "b - 1"]) simp_all
  have "b * m = (b - 1) * m + m" using assms(1) by (cases b) simp_all
  also have "\<dots> \<le> (b - 1) * m + k" using assms(2) by simp
  finally have "\<not> int ((b - 1) * m + k) < int (b * m)"
    by (simp only: of_nat_less_iff not_less)
  with mem show ?thesis unfolding list_all_iff by blast
qed

lemma positions_out_bad:
  assumes "0 < b"
  shows "\<not> list_all (\<lambda>p. 0 \<le> p \<and> p < int (b * m)) (threshold_positions_if_out b m 0)"
proof -
  have "0 \<in> set [0..<b]" using assms by simp
  then have "int 0 * int m + int 0 \<in> set (threshold_positions_if_in b m 0)"
    unfolding threshold_positions_if_in_def set_map by (rule imageI)
  then have "0 \<in> set (threshold_positions_if_in b m 0)" by simp
  then have "0 - 1 \<in> set (threshold_positions_if_out b m 0)"
    unfolding threshold_positions_if_out_def set_map by (rule imageI)
  moreover have "\<not> (0 \<le> (0 - 1 :: int))" by simp
  ultimately show ?thesis unfolding list_all_iff by blast
qed

lemma gather_error: "gather flat ps = Inl e \<Longrightarrow> e = IndexOutOfBounds"
  by (simp add: gather_def split: if_splits)

lemma gather_ok:
  "list_all (\<lambda>p. 0 \<le> p \<and> p < int (length flat)) ps \<Longrightarrow>
     \<exists>th. gather flat ps = Inr th \<and> length th = length ps"
  by (simp add: gather_def)

lemma gather_bad:
  "\<not> list_all (\<lambda>p. 0 \<le> p \<and> p < int (length flat)) ps \<Longrightarrow> gather flat ps = Inl IndexOutOfBounds"
  by (simp add: gather_def)

lemma positions_length:
  "length (threshold_positions_if_in b m k) = b" "length (threshold_positions_if_out b m k) = b"
  by (simp_all add: threshold_positions_if_in_def threshold_positions_if_out_def)

lemma noisy_load_ok:
  assumes "0 < num_selects g" and "num_selects g < num_experts g"
    and "shape2 (length lg) (min (num_selects g + 1) (num_experts g)) tlog"
  shows "\<exists>load. noisy_load g n lg lnz nc tlog = Inr load \<and> length load = n"
proof -
  let ?m = "min (num_selects g + 1) (num_experts g)"
  let ?b = "length lg"
  have km: "num_selects g < ?m" using assms(2) by simp
  have len: "length (concat tlog) = ?b * ?m" by (rule concat_length_shape2 [OF assms(3)])
  from positions_in_range [OF km, of ?b] len
  have "list_all (\<lambda>p. 0 \<le> p \<and> p < int (length (concat tlog)))
          (threshold_positions_if_in ?b ?m (num_selects g))" by simp
  from gather_ok [OF this] obtain t_in where
    t_in: "gather (concat tlog) (threshold_positions_if_in ?b ?m (num_selects g)) = Inr t_in"
    by blast
  from positions_out_range [OF km assms(1), of ?b] len
  have "list_all (\<lambda>p. 0 \<le> p \<and> p < int (length (concat tlog)))
          (threshold_positions_if_out ?b ?m (num_selects g))" by simp
  from gather_ok [OF this] obtain t_out where
    t_out: "gather (concat tlog) (threshold_positions_if_out ?b ?m (num_selects g)) = Inr t_out"
    by blast
  from t_in t_out show ?thesis
    by (simp add: noisy_load_def Let_def sum0_length)
qed

lemma noisy_load_bad:
  assumes "num_selects g = num_experts g \<or> num_selects g = 0" and "lg \<noteq> []"
    and "shape2 (length lg) (min (num_selects g + 1) (num_experts g)) tlog"
  shows "noisy_load g n lg lnz nc tlog = Inl IndexOutOfBounds"
proof -
  let ?m = "min (num_selects g + 1) (num_experts g)"
  let ?b = "length lg"
  have b: "0 < ?b" using assms(2) by simp
  have len: "length (concat tlog) = ?b * ?m" by (rule concat_length_shape2 [OF assms(3)])
  show ?thesis
  proof (cases "num_selects g = num_experts g")
    case True
    then have "?m \<le> num_selects g" by simp
    from positions_in_bad [OF b this] len
    have "\<not> list_all (\<lambda>p. 0 \<le> p \<and> p < int (length (concat tlog)))
          (threshold_positions_if_in ?b ?m (num_selects g))" by simp
    from gather_bad [OF this] show ?thesis by (simp add: noisy_load_def Let_def)
  next
    case False
    with assms(1) have k0: "num_selects g = 0" by simp
    from positions_out_bad [OF b, of ?m] len k0
    have "\<not> list_all (\<lambda>p. 0 \<le> p \<and> p < int (length (concat tlog)))
          (threshold_positions_if_out ?b ?m (num_selects g))" by simp
    from gather_bad [OF this] show ?thesis
      by (auto simp: noisy_load_def Let_def split: sum.split dest: gather_error)
  qed
qed

subsection \<open>The balance statistics and the structure of a forward pass\<close>

lemma scores_filtered_Cons:
  "scores_filtered (r # lo) (ix # idx) (s # sc) =
     scatter_row (map (\<lambda>_. 0) r) ix s # scores_filtered lo idx sc"
  by (simp add: scores_filtered_def)

lemma scores_filtered_Nil: "scores_filtered [] [] [] = []"
  by (simp add: scores_filtered_def)

lemma scores_filtered_positive:
  assumes "length lo = length idx" and "length idx = length sc"
    and "list_all (\<lambda>r. length r = n) lo"
    and "list_all (\<lambda>r. index_row n r \<and> length r = k) idx"
    and "list_all (\<lambda>r. length r = k) sc" and "e < n"
  shows "length (filter (\<lambda>r. r ! e > 0) (scores_filtered lo idx sc))
           = length (filter (selected_positive e) (zip idx sc))"
  using assms
proof (induction lo idx sc rule: list_induct3)
  case Nil
  then show ?case by (simp add: scores_filtered_Nil)
next
  case (Cons r lo ix idx s sc)
  then have ir: "index_row n ix" and ls: "length s = length ix" and lr: "length r = n"
    by simp_all
  have "scatter_row (map (\<lambda>_. 0) r) ix s ! e =
      (case map_of (zip ix s) (int e) of None \<Rightarrow> 0 | Some v \<Rightarrow> v)"
    by (rule scatter_row_nth [OF ir ls lr Cons.prems(4)])
  then have "(0 < scatter_row (map (\<lambda>_. 0) r) ix s ! e) = selected_positive e (ix, s)"
    by (simp add: selected_positive_def split: option.split)
  with Cons show ?case by (simp add: scores_filtered_Cons)
qed

lemma balance_stats_unfold:
  assumes "wf_gate g" and "shape2 b (num_experts g) logits"
    and "shape2 b (num_selects g) idx" and "shape2 b (num_selects g) sc"
    and "list_all (index_row (num_experts g)) idx"
  shows "balance_stats g logits lg noise tlog idx sc =
     (if add_noise g then
        (case noise of
           None \<Rightarrow> Inl NameError
         | Some (lnz, nc) \<Rightarrow>
             (case noisy_load g (num_experts g) lg lnz nc tlog of
                Inl e \<Rightarrow> Inl e
              | Inr load \<Rightarrow> Inr (sum0 (num_experts g) (scores_filtered logits idx sc), load)))
      else Inr (sum0 (num_experts g) (scores_filtered logits idx sc),
                map real (count_positive (num_experts g) (scores_filtered logits idx sc))))"
proof -
  from assms(1) have "wf_network (input_size g) (num_experts g) (gate_network g)"
    by (simp add: wf_gate_def)
  then have n: "network_out (gate_network g) = num_experts g"
    by (rule wf_network_out)
  have z: "shape2 b (num_experts g) (map (map (\<lambda>_. 0 :: real)) logits)"
    using assms(2) by (rule shape2_map) simp
  from scatter_ok [OF z assms(3,4,5)]
  have sf: "scatter (map (map (\<lambda>_. 0)) logits) idx sc = Inr (scores_filtered logits idx sc)"
    by (simp add: scores_filtered_def)
  show ?thesis
    by (simp add: balance_stats_def Let_def sf n)
qed

lemma forward_locals_struct:
  assumes "wf_gate g" and "input_shape g x"
  shows "\<exists>lg lo noise tlog idx sc.
      forward_logits g z ne x = Inr (lg, lo, noise) \<and>
      select_top_k K g lo = Inr (tlog, idx, sc) \<and>
      shape2 (length x) (num_experts g) lg \<and> shape2 (length x) (num_experts g) lo \<and>
      (if training g \<and> add_noise g then \<exists>lnz nc. noise = Some (lnz, nc)
       else noise = None \<and> lo = lg) \<and>
      shape2 (length x) (min (num_selects g + 1) (num_experts g)) tlog \<and>
      shape2 (length x) (num_selects g) idx \<and> shape2 (length x) (num_selects g) sc \<and>
      list_all (index_row (num_experts g)) idx \<and>
      sc = (if use_softmax g then map (softmax K) (map (take (num_selects g)) tlog)
            else map (take (num_selects g)) tlog) \<and>
      forward_locals K g z ne x =
        (if training g \<and> use_balance g then
           (case balance_stats g lo lg noise tlog idx sc of
              Inl e \<Rightarrow> Inl e
            | Inr st \<Rightarrow> Inr (idx, sc, Some st))
         else Inr (idx, sc, None))"
proof -
  from forward_logits_ok [OF assms, of z ne] obtain lg lo noise where l0:
    "forward_logits g z ne x = Inr (lg, lo, noise)"
    "shape2 (length x) (num_experts g) lg" "shape2 (length x) (num_experts g) lo"
    "if training g \<and> add_noise g
     then \<exists>lnz nc. noise = Some (lnz, nc) \<and> shape2 (length x) (num_experts g) lnz \<and>
             shape2 (length x) (num_experts g) nc
     else noise = None \<and> lo = lg"
    by blast
  from l0(4) have "if training g \<and> add_noise g then \<exists>lnz nc. noise = Some (lnz, nc)
       else noise = None \<and> lo = lg"
    by (auto split: if_splits)
  note l = l0(1,2,3) this
  from select_top_k_ok [OF assms(1) l(3)] obtain tlog idx sc where s:
    "select_top_k K g lo = Inr (tlog, idx, sc)"
    "shape2 (length x) (min (num_selects g + 1) (num_experts g)) tlog"
    "shape2 (length x) (num_selects g) idx" "shape2 (length x) (num_selects g) sc"
    "list_all (index_row (num_experts g)) idx"
    "sc = (if use_softmax g then map (softmax K) (map (take (num_selects g)) tlog)
            else map (take (num_selects g)) tlog)"
    by blast
  have "forward_locals K g z ne x =
        (if training g \<and> use_balance g then
           (case balance_stats g lo lg noise tlog idx sc of
              Inl e \<Rightarrow> Inl e
            | Inr st \<Rightarrow> Inr (idx, sc, Some st))
         else Inr (idx, sc, None))"
    using l(1) s(1) by (simp add: forward_locals_def)
  with l s show ?thesis by blast
qed

subsection \<open>Construction and the outcome of a forward pass\<close>

lemma gate_init_linear:
  "k \<le> n \<Longrightarrow> gate_init init i n k ''linear'' b a s = Inr (linear_gate i n k b a s)"
  by (simp add: gate_init_def get_gate_network_def lower_def lower_char_def linear_gate_def
      reset_parameters_def zeros_init_def Linear_def comp_def map_replicate_const)

lemma wf_zero_linear: "wf_linear i n \<lparr>in_features = i, weight = replicate n (replicate i 0)\<rparr>"
  by (simp add: wf_linear_def out_features_def list_all_iff)

lemma wf_linear_gate: "k \<le> n \<Longrightarrow> wf_gate (linear_gate i n k b a s)"
  by (simp add: wf_gate_def linear_gate_def wf_zero_linear)

lemma wf_Linear: "wf_linear i n (Linear init i n)"
  by (simp add: wf_linear_def Linear_def out_features_def list_all_iff)

lemma wf_zeros_init: "wf_linear i n l \<Longrightarrow> wf_linear i n (zeros_init l)"
  by (simp add: wf_linear_def zeros_init_def out_features_def list_all_iff)

lemma gate_init_wf:
  assumes "gate_init init i n k s b a sm = Inr g"
  shows "wf_gate g \<and> input_size g = i \<and> num_experts g = n \<and> num_selects g = k \<and>
         use_balance g = b \<and> add_noise g = a \<and> use_softmax g = sm \<and> training g"
proof -
  from assms have kn: "k \<le> n" by (auto simp: gate_init_def split: if_splits)
  from assms kn obtain net where net: "get_gate_network init s i n = Inr net"
    and g: "g = reset_parameters
               \<lparr>input_size = i, num_experts = n, num_selects = k, use_balance = b,
                add_noise = a, use_softmax = sm, gate_network = net,
                weight_noise = Linear (init 2) i n, training = True\<rparr>"
    by (auto simp: gate_init_def split: sum.splits)
  from net have "wf_network i n net"
    by (auto simp: get_gate_network_def Let_def wf_Linear wf_zeros_init split: if_splits)
  with kn g show ?thesis
    by (simp add: wf_gate_def reset_parameters_def wf_zeros_init wf_Linear)
qed

lemma forward_locals_noisy_bad:
  assumes "wf_gate g" and "input_shape g x" and "training g" and "add_noise g"
    and "use_balance g" and "num_selects g = num_experts g \<or> num_selects g = 0" and "x \<noteq> []"
  shows "forward_locals K g z ne x = Inl IndexOutOfBounds"
proof -
  from forward_locals_struct [OF assms(1,2), of z ne] obtain lg lo noise tlog idx sc where s:
    "shape2 (length x) (num_experts g) lg" "shape2 (length x) (num_experts g) lo"
    "if training g \<and> add_noise g then \<exists>lnz nc. noise = Some (lnz, nc)
       else noise = None \<and> lo = lg"
    "shape2 (length x) (min (num_selects g + 1) (num_experts g)) tlog"
    "shape2 (length x) (num_selects g) idx" "shape2 (length x) (num_selects g) sc"
    "list_all (index_row (num_experts g)) idx"
    "forward_locals K g z ne x =
        (if training g \<and> use_balance g then
           (case balance_stats g lo lg noise tlog idx sc of
              Inl e \<Rightarrow> Inl e
            | Inr st \<Rightarrow> Inr (idx, sc, Some st))
         else Inr (idx, sc, None))"
    by blast
  from s(3) assms(3,4) obtain lnz nc where noise: "noise = Some (lnz, nc)" by auto
  from s(1) have len: "length lg = length x" by (rule shape2_length)
  with assms(7) have ne: "lg \<noteq> []" by auto
  from s(4) len have "shape2 (length lg) (min (num_selects g + 1) (num_experts g)) tlog"
    by simp
  from noisy_load_bad [OF assms(6) ne this]
  have "noisy_load g (num_experts g) lg lnz nc tlog = Inl IndexOutOfBounds" .
  with balance_stats_unfold [OF assms(1) s(2,5,6,7), of lg noise tlog] noise assms(4)
  have "balance_stats g lo lg noise tlog idx sc = Inl IndexOutOfBounds" by simp
  with s(8) assms(3,5) show ?thesis by simp
qed

lemma forward_locals_noisy_ok:
  assumes "wf_gate g" and "input_shape g x" and "training g" and "add_noise g"
    and "use_balance g" and "0 < num_selects g" and "num_selects g < num_experts g"
  shows "\<exists>r. forward_locals K g z ne x = Inr r"
proof -
  from forward_locals_struct [OF assms(1,2), of z ne] obtain lg lo noise tlog idx sc where s:
    "shape2 (length x) (num_experts g) lg" "shape2 (length x) (num_experts g) lo"
    "if training g \<and> add_noise g then \<exists>lnz nc. noise = Some (lnz, nc)
       else noise = None \<and> lo = lg"
    "shape2 (length x) (min (num_selects g + 1) (num_experts g)) tlog"
    "shape2 (length x) (num_selects g) idx" "shape2 (length x) (num_selects g) sc"
    "list_all (index_row (num_experts g)) idx"
    "forward_locals K g z ne x =
        (if training g \<and> use_balance g then
           (case balance_stats g lo lg noise tlog idx sc of
              Inl e \<Rightarrow> Inl e
            | Inr st \<Rightarrow> Inr (idx, sc, Some st))
         else Inr (idx, sc, None))"
    by blast
  from s(3) assms(3,4) obtain lnz nc where noise: "noise = Some (lnz, nc)" by auto
  from s(1) have len: "length lg = length x" by (rule shape2_length)
  from s(4) len have "shape2 (length lg) (min (num_selects g + 1) (num_experts g)) tlog"
    by simp
  from noisy_load_ok [OF assms(6,7) this, of "num_experts g" lnz nc] obtain load where
    "noisy_load g (num_experts g) lg lnz nc tlog = Inr load" by blast
  with balance_stats_unfold [OF assms(1) s(2,5,6,7), of lg noise tlog] noise assms(4)
  have "\<exists>st. balance_stats g lo lg noise tlog idx sc = Inr st" by simp
  with s(8) assms(3,5) show ?thesis by auto
qed

lemma forward_locals_plain_ok:
  assumes "wf_gate g" and "input_shape g x" and "\<not> (training g \<and> use_balance g \<and> add_noise g)"
  shows "\<exists>idx sc st. forward_locals K g z ne x = Inr (idx, sc, st) \<and>
           (st \<noteq> None) = (training g \<and> use_balance g)"
proof -
  from forward_locals_struct [OF assms(1,2), of z ne] obtain lg lo noise tlog idx sc where s:
    "shape2 (length x) (num_experts g) lo"
    "shape2 (length x) (num_selects g) idx" "shape2 (length x) (num_selects g) sc"
    "list_all (index_row (num_experts g)) idx"
    "forward_locals K g z ne x =
        (if training g \<and> use_balance g then
           (case balance_stats g lo lg noise tlog idx sc of
              Inl e \<Rightarrow> Inl e
            | Inr st \<Rightarrow> Inr (idx, sc, Some st))
         else Inr (idx, sc, None))"
    by blast
  show ?thesis
  proof (cases "training g \<and> use_balance g")
    case False
    with s(5) show ?thesis by auto
  next
    case True
    with assms(3) have "\<not> add_noise g" by simp
    with balance_stats_unfold [OF assms(1) s(1,2,3,4), of lg noise tlog]
    have "\<exists>st. balance_stats g lo lg noise tlog idx sc = Inr st" by simp
    with s(5) True show ?thesis by auto
  qed
qed

lemma forward_locals_indices:
  assumes "wf_gate g" and "input_shape g x" and "forward_locals K g z ne x = Inr (idx, sc, st)"
  shows "shape2 (length x) (num_selects g) idx \<and> shape2 (length x) (num_selects g) sc \<and>
         list_all (index_row (num_experts g)) idx"
proof -
  from forward_locals_struct [OF assms(1,2), of z ne] obtain lg lo noise tlog idx' sc' where s:
    "shape2 (length x) (num_selects g) idx'" "shape2 (length x) (num_selects g) sc'"
    "list_all (index_row (num_experts g)) idx'"
    "forward_locals K g z ne x =
        (if training g \<and> use_balance g then
           (case balance_stats g lo lg noise tlog idx' sc' of
              Inl e \<Rightarrow> Inl e
            | Inr st \<Rightarrow> Inr (idx', sc', Some st))
         else Inr (idx', sc', None))"
    by blast
  from s(4) assms(3) have "idx = idx'" "sc = sc'"
    by (auto split: if_splits sum.splits)
  with s(1,2,3) show ?thesis by simp
qed

lemma forward_Inr:
  "forward K g z ne lc x = Inr (idx, sc, gl) \<Longrightarrow>
     \<exists>st. forward_locals K g z ne x = Inr (idx, sc, st) \<and> gl = map_option (gate_loss_of K lc) st"
  by (auto simp: forward_def split: sum.splits)

section \<open>The claims about the gating module\<close>

text \<open>The definitions that evaluate a forward pass on a concrete input.\<close>

lemmas forward_eval =
  forward_def forward_locals_def forward_logits_def select_top_k_def topk_def topk_row_def
  linear_forward_def dot_def balance_stats_def scatter_def scatter_row_def sum0_def
  count_positive_def out_features_def perturb_def randn_like_def noisy_load_def gather_def
  threshold_positions_if_in_def threshold_positions_if_out_def softmax_def Let_def
  linear_gate_def

text \<open>Whenever \<^verbatim>\<open>forward\<close> returns, \<^verbatim>\<open>top_k_indices\<close> has shape
  \<open>(batch_size, num_selects)\<close> and each of its rows holds pairwise distinct indices in
  \<open>[0, num_experts)\<close>; and it returns unless the load under noise is computed with
  \<^verbatim>\<open>num_selects\<close> equal to 0 or to \<^verbatim>\<open>num_experts\<close>.\<close>

lemma forward_indices:
  assumes "wf_gate g" and "input_shape g x" and "forward K g z ne lc x = Inr (idx, sc, gl)"
  shows "shape2 (length x) (num_selects g) idx \<and> list_all (index_row (num_experts g)) idx"
proof -
  from forward_Inr [OF assms(3)] obtain st where
    "forward_locals K g z ne x = Inr (idx, sc, st)" by blast
  from forward_locals_indices [OF assms(1,2) this] show ?thesis by simp
qed

lemma forward_returns:
  assumes "wf_gate g" and "input_shape g x"
    and "\<not> (training g \<and> use_balance g \<and> add_noise g) \<or>
         (0 < num_selects g \<and> num_selects g < num_experts g)"
  shows "\<exists>idx sc gl. forward K g z ne lc x = Inr (idx, sc, gl)"
proof (cases "training g \<and> use_balance g \<and> add_noise g")
  case True
  with assms(3) have "0 < num_selects g" "num_selects g < num_experts g" by auto
  from forward_locals_noisy_ok [OF assms(1,2) _ _ _ this, of K z ne] True
  obtain r where "forward_locals K g z ne x = Inr r" by blast
  then show ?thesis by (cases r) (simp add: forward_def)
next
  case False
  from forward_locals_plain_ok [OF assms(1,2) False, of K z ne]
  show ?thesis by (auto simp: forward_def)
qed

text \<open>
  Claim C3. Whenever \<^verbatim>\<open>forward\<close> returns, the \<^verbatim>\<open>gate_loss\<close> component of its result is
  a value exactly when the module is in training mode and \<^verbatim>\<open>use_balance\<close> is set, and
  \<^verbatim>\<open>None\<close> otherwise, whatever \<^verbatim>\<open>add_noise\<close> and \<^verbatim>\<open>use_softmax\<close> are.
\<close>

theorem gate_loss_presence:
  "forward K g z ne lc x = Inr (idx, sc, gl) \<Longrightarrow> (gl \<noteq> None) = (training g \<and> use_balance g)"
  by (auto simp: forward_def forward_locals_def split: sum.splits prod.splits if_splits)

theorem gate_loss_presence_witness:
  "training (linear_gate 1 2 1 True False True) \<and>
   use_balance (linear_gate 1 2 1 True False True) \<and>
   (\<forall>K. \<exists>idx sc gl.
      forward K (linear_gate 1 2 1 True False True) (\<lambda>_ _. 0) (1 / 100) (1 / 100) [[1]]
        = Inr (idx, sc, gl) \<and> gl \<noteq> None)"
proof -
  let ?g = "linear_gate 1 2 1 True False True"
  have w: "wf_gate ?g" by (rule wf_linear_gate) simp
  have i: "input_shape ?g [[1]]" by (simp add: input_shape_def linear_gate_def)
  have t: "training ?g" and b: "use_balance ?g" and a: "\<not> add_noise ?g"
    by (simp_all add: linear_gate_def)
  have "\<exists>idx sc gl. forward K ?g (\<lambda>_ _. 0) (1 / 100) (1 / 100) [[1]] = Inr (idx, sc, gl) \<and>
      gl \<noteq> None" for K
  proof -
    from a have "\<not> (training ?g \<and> use_balance ?g \<and> add_noise ?g) \<or>
         (0 < num_selects ?g \<and> num_selects ?g < num_experts ?g)" by simp
    from forward_returns [OF w i this, of K "\<lambda>_ _. 0" "1 / 100" "1 / 100"]
    obtain idx sc gl where
      r: "forward K ?g (\<lambda>_ _. 0) (1 / 100) (1 / 100) [[1]] = Inr (idx, sc, gl)" by blast
    from gate_loss_presence [OF r] t b have "gl \<noteq> None" by simp
    with r show ?thesis by blast
  qed
  with t b show ?thesis by blast
qed

text \<open>
  Claim C7. Outside training mode, or with \<^verbatim>\<open>add_noise\<close> off, the result of
  \<^verbatim>\<open>forward\<close> does not depend on the random sample: two calls on the same input and
  module state give the same outcome, in particular the same \<^verbatim>\<open>top_k_indices\<close> and
  \<^verbatim>\<open>top_k_scores\<close>.
\<close>

theorem forward_deterministic:
  "\<not> training g \<or> \<not> add_noise g \<Longrightarrow> forward K g z1 ne lc x = forward K g z2 ne lc x"
proof -
  assume "\<not> training g \<or> \<not> add_noise g"
  then have "forward_logits g z1 ne x = forward_logits g z2 ne x"
    by (auto simp: forward_logits_def split: sum.splits)
  then show ?thesis by (simp add: forward_def forward_locals_def)
qed

theorem forward_deterministic_witness:
  "training (linear_gate 1 2 1 True False True) \<and>
   \<not> add_noise (linear_gate 1 2 1 True False True) \<and>
   (\<forall>K. forward K (linear_gate 1 2 1 True False True) (\<lambda>_ _. 0) (1 / 100) (1 / 100) [[1]] =
        forward K (linear_gate 1 2 1 True False True) (\<lambda>_ _. 1) (1 / 100) (1 / 100) [[1]])"
proof -
  have t: "training (linear_gate 1 2 1 True False True)"
    and a: "\<not> add_noise (linear_gate 1 2 1 True False True)"
    by (simp_all add: linear_gate_def)
  from a have h: "\<not> training (linear_gate 1 2 1 True False True) \<or>
    \<not> add_noise (linear_gate 1 2 1 True False True)" by simp
  from forward_deterministic [OF h] t a show ?thesis by blast
qed

text \<open>
  Claim C1. \<^verbatim>\<open>forward_return_scores\<close> is to repeat the computation of \<^verbatim>\<open>forward\<close>. In
  training mode with \<^verbatim>\<open>add_noise\<close> it does not: line 192 hands the module
  \<^verbatim>\<open>self.weight_noise\<close> to \<^verbatim>\<open>torch.mm\<close>, so the call ends with a TypeError on every
  input of the right shape, where \<^verbatim>\<open>forward\<close> (line 114) calls the module and goes on.
\<close>

theorem forward_return_scores_type_error:
  assumes "wf_gate g" and "input_shape g x" and "training g" and "add_noise g"
  shows "forward_return_scores K g z ne lc x = Inl TypeError"
proof -
  from assms(1,2) have "wf_network (input_size g) (num_experts g) (gate_network g)"
    and "list_all (\<lambda>r. length r = input_size g) x"
    by (simp_all add: wf_gate_def input_shape_def)
  from network_forward_ok [OF this] obtain lg where
    "network_forward (gate_network g) x = Inr lg" by blast
  with assms(3,4) show ?thesis
    by (simp add: forward_return_scores_def forward_return_scores_logits_def)
qed

text \<open>Where no noise is added the two functions return the same \<^verbatim>\<open>gate_loss\<close> (or end
  with the same exception).\<close>

lemma forward_return_scores_same_loss:
  "\<not> (training g \<and> add_noise g) \<Longrightarrow>
     map_sum id snd (forward_return_scores K g z ne lc x)
       = map_sum id (\<lambda>r. snd (snd r)) (forward K g z ne lc x)"
  by (auto simp: forward_return_scores_def forward_return_scores_logits_def forward_def
      forward_locals_def forward_logits_def Let_def split: sum.splits prod.splits)

theorem forward_return_scores_type_error_witness:
  "wf_gate (linear_gate 1 3 2 True True True) \<and>
   input_shape (linear_gate 1 3 2 True True True) [[1]] \<and>
   training (linear_gate 1 3 2 True True True) \<and>
   add_noise (linear_gate 1 3 2 True True True) \<and>
   (\<forall>K. forward_return_scores K (linear_gate 1 3 2 True True True) (\<lambda>_ _. 0) (1 / 100)
          (1 / 100) [[1]] = Inl TypeError \<and>
        (\<exists>r. forward K (linear_gate 1 3 2 True True True) (\<lambda>_ _. 0) (1 / 100) (1 / 100) [[1]]
               = Inr r))"
proof -
  let ?g = "linear_gate 1 3 2 True True True"
  have w: "wf_gate ?g" by (rule wf_linear_gate) simp
  have i: "input_shape ?g [[1]]" by (simp add: input_shape_def linear_gate_def)
  have t: "training ?g" and a: "add_noise ?g" and b: "use_balance ?g"
    and k: "0 < num_selects ?g" "num_selects ?g < num_experts ?g"
    by (simp_all add: linear_gate_def)
  have f: "\<exists>r. forward K ?g (\<lambda>_ _. 0) (1 / 100) (1 / 100) [[1]] = Inr r" for K
  proof -
    from forward_locals_noisy_ok [OF w i t a b k, of K "\<lambda>_ _. 0" "1 / 100"] obtain r where
      "forward_locals K ?g (\<lambda>_ _. 0) (1 / 100) [[1]] = Inr r" by blast
    then show ?thesis by (cases r) (simp add: forward_def)
  qed
  have e: "forward_return_scores K ?g (\<lambda>_ _. 0) (1 / 100) (1 / 100) [[1]] = Inl TypeError" for K
    by (rule forward_return_scores_type_error [OF w i t a])
  from w i t a e f show ?thesis by blast
qed

text \<open>
  Claim C2. With \<^verbatim>\<open>num_selects = num_experts\<close>, which the constructor accepts, a gate
  fresh from \<^verbatim>\<open>__init__\<close> (training mode, \<^verbatim>\<open>add_noise\<close> and \<^verbatim>\<open>use_balance\<close> set) returns
  no \<^verbatim>\<open>top_k_indices\<close>: \<^verbatim>\<open>forward\<close> ends in the RuntimeError of the gather of
  line 159, for every noise sample and whatever the float32 kernels compute.
\<close>

theorem forward_raises_when_all_experts_selected:
  "gate_init init 1 1 1 ''linear'' True True True = Inr (linear_gate 1 1 1 True True True) \<and>
   num_selects (linear_gate 1 1 1 True True True) \<le> num_experts (linear_gate 1 1 1 True True True) \<and>
   forward K (linear_gate 1 1 1 True True True) z (1 / 100) (1 / 100) [[0]] = Inl IndexOutOfBounds"
proof -
  let ?g = "linear_gate 1 1 1 True True True"
  have w: "wf_gate ?g" by (rule wf_linear_gate) simp
  have i: "input_shape ?g [[0]]" by (simp add: input_shape_def linear_gate_def)
  have "forward_locals K ?g z (1 / 100) [[0]] = Inl IndexOutOfBounds"
    by (rule forward_locals_noisy_bad [OF w i]) (simp_all add: linear_gate_def)
  then show ?thesis
    by (simp add: gate_init_linear forward_def) (simp add: linear_gate_def)
qed

subsection \<open>The statistics of the balance branch\<close>

lemma forward_locals_balance:
  assumes "wf_gate g" and "input_shape g x" and "training g" and "use_balance g"
    and "forward_locals K g z ne x = Inr (idx, sc, st)"
  shows "\<exists>lo load. shape2 (length x) (num_experts g) lo \<and>
           st = Some (sum0 (num_experts g) (scores_filtered lo idx sc), load) \<and>
           (\<not> add_noise g \<longrightarrow>
              load = map real (count_positive (num_experts g) (scores_filtered lo idx sc))) \<and>
           shape2 (length x) (num_selects g) idx \<and> shape2 (length x) (num_selects g) sc \<and>
           list_all (index_row (num_experts g)) idx"
proof -
  from forward_locals_struct [OF assms(1,2), of z ne] obtain lg lo noise tlog idx' sc' where s:
    "shape2 (length x) (num_experts g) lo"
    "shape2 (length x) (num_selects g) idx'" "shape2 (length x) (num_selects g) sc'"
    "list_all (index_row (num_experts g)) idx'"
    "forward_locals K g z ne x =
        (if training g \<and> use_balance g then
           (case balance_stats g lo lg noise tlog idx' sc' of
              Inl e \<Rightarrow> Inl e
            | Inr st \<Rightarrow> Inr (idx', sc', Some st))
         else Inr (idx', sc', None))"
    by blast
  from s(5) assms(3,4,5) obtain st' where st':
    "balance_stats g lo lg noise tlog idx' sc' = Inr st'" "idx = idx'" "sc = sc'" "st = Some st'"
    by (auto split: sum.splits)
  let ?sf = "scores_filtered lo idx sc"
  from balance_stats_unfold [OF assms(1) s(1,2,3,4), of lg noise tlog] st'
  have "\<exists>load. st' = (sum0 (num_experts g) ?sf, load) \<and>
      (\<not> add_noise g \<longrightarrow> load = map real (count_positive (num_experts g) ?sf))"
    by (auto split: if_splits option.splits sum.splits)
  then obtain load where load: "st' = (sum0 (num_experts g) ?sf, load)"
    "\<not> add_noise g \<longrightarrow> load = map real (count_positive (num_experts g) ?sf)" by blast
  from s(1,2,3,4) st' load show ?thesis by auto
qed

text \<open>A gate fresh from \<^verbatim>\<open>__init__\<close> with the network type \<^verbatim>\<open>linear\<close>, without softmax
  and without noise: every logit is 0, expert 0 is selected with score 0, and no load
  is counted, whatever the kernels are.\<close>

lemma fresh_linear_gate_load:
  "forward_locals K (linear_gate 1 2 1 True False False) z ne [[1]]
     = Inr ([[0]], [[0]], Some ([0, 0], [0, 0]))"
  by (simp add: forward_eval eval_nat_numeral)

text \<open>
  Claim C5 as stated fails without softmax. A fresh \<^verbatim>\<open>linear\<close> gate has logits 0, so
  with \<^verbatim>\<open>use_softmax\<close> off the score of the selected expert is 0 and line 176 does not
  count it: expert 0 is selected in the one row of the batch, and its load is 0.
\<close>

theorem hard_load_counterexample:
  "training (linear_gate 1 2 1 True False False) \<and>
   use_balance (linear_gate 1 2 1 True False False) \<and>
   \<not> add_noise (linear_gate 1 2 1 True False False) \<and>
   forward_locals exact_kernels (linear_gate 1 2 1 True False False) (\<lambda>_ _. 0) (1 / 100) [[1]]
     = Inr ([[0]], [[0]], Some ([0, 0], [0, 0])) \<and>
   [0, 0] ! 0 \<noteq> real (length (filter (\<lambda>r. int 0 \<in> set r) [[0]]))"
  using fresh_linear_gate_load [of exact_kernels "\<lambda>_ _. 0" "1 / 100"]
  by (simp add: linear_gate_def)

text \<open>
  Claim C5, amended. In training mode with \<^verbatim>\<open>use_balance\<close> and without \<^verbatim>\<open>add_noise\<close>,
  \<^verbatim>\<open>forward\<close> returns, and \<^verbatim>\<open>load[e]\<close> is the number of rows in which expert \<open>e\<close> is
  selected with a strictly positive score, for every \<^verbatim>\<open>use_softmax\<close> setting and for
  every record of kernels.
\<close>

theorem hard_load_counts_positive_selections:
  assumes "wf_gate g" and "input_shape g x" and "training g" and "use_balance g"
    and "\<not> add_noise g" and "e < num_experts g"
  shows "\<exists>idx sc importance load.
     forward_locals K g z ne x = Inr (idx, sc, Some (importance, load)) \<and>
     forward K g z ne lc x = Inr (idx, sc, Some (gate_loss_of K lc (importance, load))) \<and>
     load ! e = real (length (filter (selected_positive e) (zip idx sc)))"
proof -
  from assms(3,4,5) have "\<not> (training g \<and> use_balance g \<and> add_noise g)" by simp
  from forward_locals_plain_ok [OF assms(1,2) this, of K z ne] obtain idx sc st where
    f: "forward_locals K g z ne x = Inr (idx, sc, st)" by blast
  from forward_locals_balance [OF assms(1,2,3,4) f] assms(5) obtain lo where b:
    "shape2 (length x) (num_experts g) lo"
    "st = Some (sum0 (num_experts g) (scores_filtered lo idx sc),
                map real (count_positive (num_experts g) (scores_filtered lo idx sc)))"
    "shape2 (length x) (num_selects g) idx" "shape2 (length x) (num_selects g) sc"
    "list_all (index_row (num_experts g)) idx"
    by auto
  let ?n = "num_experts g"
  let ?sf = "scores_filtered lo idx sc"
  let ?load = "map real (count_positive ?n ?sf)"
  have l1: "length lo = length idx" "length idx = length sc"
    using b(1,3,4) by (simp_all add: shape2_def)
  have l2: "list_all (\<lambda>r. length r = ?n) lo" using b(1) by (simp add: shape2_def)
  have l3: "list_all (\<lambda>r. index_row ?n r \<and> length r = num_selects g) idx"
    using b(3,5) by (simp add: shape2_def list_all_iff)
  have l4: "list_all (\<lambda>r. length r = num_selects g) sc" using b(4) by (simp add: shape2_def)
  have "?load ! e = real (count_positive ?n ?sf ! e)"
    using assms(6) by (simp add: count_positive_def)
  also have "\<dots> = real (length (filter (\<lambda>r. r ! e > 0) ?sf))"
    using assms(6) by (simp add: count_positive_nth)
  also have "\<dots> = real (length (filter (selected_positive e) (zip idx sc)))"
    using scores_filtered_positive [OF l1 l2 l3 l4 assms(6)] by simp
  finally have c1: "?load ! e = real (length (filter (selected_positive e) (zip idx sc)))" .
  from f b(2) have "forward K g z ne lc x = Inr (idx, sc,
      Some (gate_loss_of K lc (sum0 ?n ?sf, ?load)))"
    by (simp add: forward_def)
  with f b(2) c1 show ?thesis by blast
qed

text \<open>A gate after training: one input feature, weights 1 and 2 for the two experts.\<close>

theorem hard_load_counts_positive_selections_witness:
  "wf_gate ((linear_gate 1 2 1 True False False)
      \<lparr>gate_network := LinearNet \<lparr>in_features = 1, weight = [[1], [2]]\<rparr>\<rparr>) \<and>
   input_shape ((linear_gate 1 2 1 True False False)
      \<lparr>gate_network := LinearNet \<lparr>in_features = 1, weight = [[1], [2]]\<rparr>\<rparr>) [[1], [- 1]] \<and>
   training ((linear_gate 1 2 1 True False False)
      \<lparr>gate_network := LinearNet \<lparr>in_features = 1, weight = [[1], [2]]\<rparr>\<rparr>) \<and>
   use_balance ((linear_gate 1 2 1 True False False)
      \<lparr>gate_network := LinearNet \<lparr>in_features = 1, weight = [[1], [2]]\<rparr>\<rparr>) \<and>
   \<not> add_noise ((linear_gate 1 2 1 True False False)
      \<lparr>gate_network := LinearNet \<lparr>in_features = 1, weight = [[1], [2]]\<rparr>\<rparr>) \<and>
   1 < num_experts ((linear_gate 1 2 1 True False False)
      \<lparr>gate_network := LinearNet \<lparr>in_features = 1, weight = [[1], [2]]\<rparr>\<rparr>) \<and>
   (\<forall>K. forward_locals K ((linear_gate 1 2 1 True False False)
            \<lparr>gate_network := LinearNet \<lparr>in_features = 1, weight = [[1], [2]]\<rparr>\<rparr>)
          (\<lambda>_ _. 0) (1 / 100) [[1], [- 1]]
        = Inr ([[1], [0]], [[2], [- 1]], Some ([- 1, 2], [0, 1]))) \<and>
   [0, 1] ! 1 = real (length (filter (selected_positive 1) (zip [[1], [0]] [[2], [- 1]])))"
proof -
  let ?g = "(linear_gate 1 2 1 True False False)
      \<lparr>gate_network := LinearNet \<lparr>in_features = 1, weight = [[1], [2]]\<rparr>\<rparr>"
  have w: "wf_gate ?g"
    by (simp add: wf_gate_def wf_linear_def linear_gate_def out_features_def list_all_iff)
  have i: "input_shape ?g [[1], [- 1]]" by (simp add: input_shape_def linear_gate_def)
  have f: "training ?g" "use_balance ?g" "\<not> add_noise ?g" "1 < num_experts ?g"
    by (simp_all add: linear_gate_def)
  have ev: "forward_locals K ?g (\<lambda>_ _. 0) (1 / 100) [[1], [- 1]]
        = Inr ([[1], [0]], [[2], [- 1]], Some ([- 1, 2], [0, 1]))" for K
    by (simp add: forward_eval eval_nat_numeral)
  from hard_load_counts_positive_selections [OF w i f, of exact_kernels "\<lambda>_ _. 0" "1 / 100" "1 / 100"]
  obtain idx sc importance load where r:
    "forward_locals exact_kernels ?g (\<lambda>_ _. 0) (1 / 100) [[1], [- 1]]
       = Inr (idx, sc, Some (importance, load))"
    "load ! 1 = real (length (filter (selected_positive 1) (zip idx sc)))" by blast
  from r(1) ev [of exact_kernels] have "idx = [[1], [0]]" "sc = [[2], [- 1]]" "load = [0, 1]"
    by simp_all
  with r(2) have
    "[0, 1] ! 1 = real (length (filter (selected_positive 1) (zip [[1], [0]] [[2], [- 1]])))"
    by simp
  with w i f ev show ?thesis by blast
qed

text \<open>
  Claim C6 equates sums of float32 numbers with 1 and with the batch size: the sum of a
  row of \<^verbatim>\<open>top_k_scores\<close> and the sum of \<^verbatim>\<open>importance\<close>. Whether such a sum is exactly
  1 is decided by the rounding of the softmax and of the additions, which are kernels of
  torch and parameters here, so the claim has no statement in this model. What holds
  without arithmetic: the scores have the shape of the indices, and for
  \<^verbatim>\<open>num_selects = 0\<close>, which the constructor accepts, every row of \<^verbatim>\<open>top_k_scores\<close> is
  empty, so that its sum is 0 and not 1.
\<close>

lemma scores_empty_without_selects:
  assumes "wf_gate g" and "input_shape g x" and "num_selects g = 0"
    and "forward K g z ne lc x = Inr (idx, sc, gl)"
  shows "list_all (\<lambda>r. r = [] \<and> sum_list r = 0) sc"
proof -
  from forward_Inr [OF assms(4)] obtain st where
    "forward_locals K g z ne x = Inr (idx, sc, st)" by blast
  from forward_locals_indices [OF assms(1,2) this] assms(3)
  have "shape2 (length x) 0 sc" by simp
  then show ?thesis by (auto simp: shape2_def list_all_iff)
qed




subsection \<open>The squared coefficient of variation\<close>

text \<open>
  Claim C4 is about the values of \<^verbatim>\<open>cv_squared\<close> in float32: exactly 0 on a constant
  vector, strictly positive otherwise. Both are decided by the rounding of
  \<^verbatim>\<open>x.float().var()\<close>, \<^verbatim>\<open>x.float().mean()\<close> and the quotient, kernels of torch that are
  parameters here, so the claim has no statement in this model. What the code of
  \<^verbatim>\<open>cv_squared\<close> itself fixes: the constant 0 for a vector of one element, computed
  without a kernel, and the float32 quotient for every other vector.
\<close>

lemma cv_squared_single: "cv_squared K [v] eps = Finite 0"
  by (simp add: cv_squared_def)

lemma cv_squared_quotient:
  "length x \<noteq> 1 \<Longrightarrow>
     cv_squared K x eps = div32 K (var32 K x) (add32 K (square32 K (mean32 K x)) (Finite eps))"
  by (simp add: cv_squared_def)

subsection \<open>Construction\<close>

text \<open>
  Claim C8. \<^verbatim>\<open>__init__\<close> with \<^verbatim>\<open>num_selects > num_experts\<close> ends in the AssertionError of
  line 62. With a \<^verbatim>\<open>gate_network\<close> string whose lower-case form is neither \<^verbatim>\<open>linear\<close>
  nor \<^verbatim>\<open>mlp\<close>, \<^verbatim>\<open>get_gate_network\<close> raises the ValueError whose arguments list the
  valid types and the rejected one, and \<^verbatim>\<open>__init__\<close> fails in every case (with that
  ValueError itself when the assertion passes). A failed construction yields an
  exception and no gate, so no forward pass can follow it; every other construction
  yields a gate in training mode with the shapes of its configuration.
\<close>

theorem gate_init_validation:
  "(n < k \<longrightarrow> gate_init init i n k s b a sm = Inl AssertionError) \<and>
   (lower s \<notin> set valid_gate_type \<longrightarrow>
      get_gate_network init s i n =
        Inl (ValueError (''Expected '' @ [CHR 0x22] @ ''gate_type'' @ [CHR 0x22] @ '' in'')
               valid_gate_type ''got'' (lower s)) \<and>
      (\<exists>e. gate_init init i n k s b a sm = Inl e) \<and>
      (k \<le> n \<longrightarrow> gate_init init i n k s b a sm =
        Inl (ValueError (''Expected '' @ [CHR 0x22] @ ''gate_type'' @ [CHR 0x22] @ '' in'')
               valid_gate_type ''got'' (lower s)))) \<and>
   (k \<le> n \<and> lower s \<in> set valid_gate_type \<longrightarrow>
      (\<exists>g. gate_init init i n k s b a sm = Inr g \<and> wf_gate g \<and> training g))"
proof (intro conjI impI)
  assume "n < k"
  then show "gate_init init i n k s b a sm = Inl AssertionError" by (simp add: gate_init_def)
next
  assume bad: "lower s \<notin> set valid_gate_type"
  then show net: "get_gate_network init s i n =
        Inl (ValueError (''Expected '' @ [CHR 0x22] @ ''gate_type'' @ [CHR 0x22] @ '' in'')
               valid_gate_type ''got'' (lower s))"
    by (simp add: get_gate_network_def valid_gate_type_def Let_def)
  then show "\<exists>e. gate_init init i n k s b a sm = Inl e"
    by (simp add: gate_init_def)
  assume "k \<le> n"
  with net show "gate_init init i n k s b a sm =
        Inl (ValueError (''Expected '' @ [CHR 0x22] @ ''gate_type'' @ [CHR 0x22] @ '' in'')
               valid_gate_type ''got'' (lower s))"
    by (simp add: gate_init_def)
next
  assume ok: "k \<le> n \<and> lower s \<in> set valid_gate_type"
  then have "\<exists>net. get_gate_network init s i n = Inr net"
    by (auto simp: get_gate_network_def valid_gate_type_def Let_def)
  with ok obtain g where g: "gate_init init i n k s b a sm = Inr g"
    by (auto simp: gate_init_def)
  from gate_init_wf [OF g] g
  show "\<exists>g. gate_init init i n k s b a sm = Inr g \<and> wf_gate g \<and> training g" by blast
qed

theorem gate_init_validation_witness:
  "(1 :: nat) < 2 \<and>
   gate_init (\<lambda>_ _ _. 0) 4 1 2 ''mlp'' True True True = Inl AssertionError \<and>
   lower ''Conv'' \<notin> set valid_gate_type \<and> (1 :: nat) \<le> 2 \<and>
   gate_init (\<lambda>_ _ _. 0) 4 2 1 ''Conv'' True True True =
     Inl (ValueError (''Expected '' @ [CHR 0x22] @ ''gate_type'' @ [CHR 0x22] @ '' in'')
            [''linear'', ''mlp''] ''got'' ''conv'') \<and>
   lower ''MLP'' \<in> set valid_gate_type \<and>
   (\<exists>g. gate_init (\<lambda>_ _ _. 0) 4 2 1 ''MLP'' True True True = Inr g \<and> wf_gate g \<and> training g)"
proof -
  have l1: "lower ''Conv'' = ''conv''" "lower ''MLP'' = ''mlp''"
    by (simp_all add: lower_def lower_char_def)
  have h1: "(1 :: nat) < 2" and h2: "lower ''Conv'' \<notin> set valid_gate_type"
    and h3: "(1 :: nat) \<le> 2" and h4: "lower ''MLP'' \<in> set valid_gate_type"
    by (simp_all add: l1 valid_gate_type_def)
  from gate_init_validation [of 1 2 "\<lambda>_ _ _. 0" 4 "''mlp''" True True True] h1
  have a: "gate_init (\<lambda>_ _ _. 0) 4 1 2 ''mlp'' True True True = Inl AssertionError" by blast
  from gate_init_validation [of 2 1 "\<lambda>_ _ _. 0" 4 "''Conv''" True True True] h2 h3
  have "gate_init (\<lambda>_ _ _. 0) 4 2 1 ''Conv'' True True True =
     Inl (ValueError (''Expected '' @ [CHR 0x22] @ ''gate_type'' @ [CHR 0x22] @ '' in'')
            valid_gate_type ''got'' (lower ''Conv''))" by blast
  then have b: "gate_init (\<lambda>_ _ _. 0) 4 2 1 ''Conv'' True True True =
     Inl (ValueError (''Expected '' @ [CHR 0x22] @ ''gate_type'' @ [CHR 0x22] @ '' in'')
            [''linear'', ''mlp''] ''got'' ''conv'')"
    by (simp add: l1 valid_gate_type_def)
  from gate_init_validation [of 2 1 "\<lambda>_ _ _. 0" 4 "''MLP''" True True True] h3 h4
  have c: "\<exists>g. gate_init (\<lambda>_ _ _. 0) 4 2 1 ''MLP'' True True True = Inr g \<and> wf_gate g \<and>
      training g" by blast
  from h1 h2 h3 h4 a b c show ?thesis by blast
qed


end
